theory Spec2Isabelle
  imports Main
begin

section \<open>The category extractor of smart-basket (extract_categories.py)\<close>

text \<open>
  The script reads \<^verbatim>\<open>categories.json\<close>, keeps the top-level categories that are
  roots and not excluded by id, copies each kept category to a tree of names while
  dropping the sub-categories excluded by name, and prints the tree, one line per node,
  to \<^verbatim>\<open>product_categories.txt\<close> and to the console.

  Python's \<^verbatim>\<open>str\<close> is modelled by \<^typ>\<open>string\<close> holding the UTF-8 encoding of the text,
  the encoding of both files. The source compares names for equality, concatenates them
  and never counts their characters, so nothing depends on the difference between bytes
  and code points. A \<^verbatim>\<open>str\<close> can hold a lone surrogate (\<^verbatim>\<open>json.load\<close> yields one for an
  escape such as \<^verbatim>\<open>\ud800\<close>), which UTF-8 refuses to encode; it is held as the three
  bytes, \<^verbatim>\<open>ED\<close> then \<^verbatim>\<open>A0\<close> to \<^verbatim>\<open>BF\<close> then a third, that the encoding would give it
  if it did not refuse.
\<close>

subsection \<open>Data\<close>

text \<open>
  An entry of the catalog is a JSON object. Each key the source reads may be absent
  (\<open>None\<close>); a key that is present has the type the catalog gives it: \<^verbatim>\<open>id\<close> and
  \<^verbatim>\<open>parent_id\<close> integers, \<^verbatim>\<open>name\<close> a string, \<^verbatim>\<open>children\<close> a list of entries.
\<close>

datatype CatalogNode =
  CatalogNode (cat_id: "int option") (cat_name: "string option")
    (cat_parent_id: "int option") (cat_children: "CatalogNode list option")

text \<open>
  The dictionary \<^verbatim>\<open>result\<close> built by \<^verbatim>\<open>extract_category\<close>: the key \<^verbatim>\<open>name\<close> is always
  set, the key \<^verbatim>\<open>children\<close> only by line 40.
\<close>

datatype FilteredNode =
  FilteredNode (node_name: string) (node_children: "FilteredNode list option")

text \<open>The exceptions the script can raise on its input and while it writes.\<close>

datatype error = FileNotFoundError | JSONDecodeError | KeyError string | UnicodeEncodeError

text \<open>
  What \<^verbatim>\<open>open\<close> and \<^verbatim>\<open>json.load\<close> find in \<^verbatim>\<open>categories.json\<close>: no file, text that
  is not JSON, or an object whose key \<^verbatim>\<open>categories\<close> is absent or holds the list of
  top-level entries.
\<close>

datatype input_file = NoFile | NotJson | Json "CatalogNode list option"

text \<open>
  The part of the outside world the script touches: the input file, the output file
  (\<open>None\<close> while it does not exist) and the text printed so far.
\<close>

record world =
  categories_json :: input_file
  product_categories_txt :: "string option"
  stdout :: string

subsection \<open>The exclusion sets (lines 4 to 26)\<close>

definition EXCLUDE_CATEGORY_IDS :: "int set" where
  "EXCLUDE_CATEGORY_IDS =
     {11372526, 11319371, 11378741, 11379406, 11256837, 62983, 7107, 69086, 11213812}"

definition name_all_goods_of_category :: string where
  \<comment> \<open>line 18 of the source; in English: All goods of the category\<close>
  "name_all_goods_of_category = [
   CHR 0xD0, CHR 0x92, CHR 0xD1, CHR 0x81, CHR 0xD0, CHR 0xB5, CHR 0x20, CHR 0xD1,
   CHR 0x82, CHR 0xD0, CHR 0xBE, CHR 0xD0, CHR 0xB2, CHR 0xD0, CHR 0xB0, CHR 0xD1,
   CHR 0x80, CHR 0xD1, CHR 0x8B, CHR 0x20, CHR 0xD0, CHR 0xBA, CHR 0xD0, CHR 0xB0,
   CHR 0xD1, CHR 0x82, CHR 0xD0, CHR 0xB5, CHR 0xD0, CHR 0xB3, CHR 0xD0, CHR 0xBE,
   CHR 0xD1, CHR 0x80, CHR 0xD0, CHR 0xB8, CHR 0xD0, CHR 0xB8]"

definition name_all_goods_of_section :: string where
  \<comment> \<open>line 19 of the source; in English: All goods of the section\<close>
  "name_all_goods_of_section = [
   CHR 0xD0, CHR 0x92, CHR 0xD1, CHR 0x81, CHR 0xD0, CHR 0xB5, CHR 0x20, CHR 0xD1,
   CHR 0x82, CHR 0xD0, CHR 0xBE, CHR 0xD0, CHR 0xB2, CHR 0xD0, CHR 0xB0, CHR 0xD1,
   CHR 0x80, CHR 0xD1, CHR 0x8B, CHR 0x20, CHR 0xD1, CHR 0x80, CHR 0xD0, CHR 0xB0,
   CHR 0xD0, CHR 0xB7, CHR 0xD0, CHR 0xB4, CHR 0xD0, CHR 0xB5, CHR 0xD0, CHR 0xBB,
   CHR 0xD0, CHR 0xB0]"

definition name_petelinka_dinner :: string where
  \<comment> \<open>line 21 of the source; in English: With Petelinka for dinner\<close>
  "name_petelinka_dinner = [
   CHR 0xD0, CHR 0xA1, CHR 0x20, CHR 0xD0, CHR 0x9F, CHR 0xD0, CHR 0xB5, CHR 0xD1,
   CHR 0x82, CHR 0xD0, CHR 0xB5, CHR 0xD0, CHR 0xBB, CHR 0xD0, CHR 0xB8, CHR 0xD0,
   CHR 0xBD, CHR 0xD0, CHR 0xBA, CHR 0xD0, CHR 0xBE, CHR 0xD0, CHR 0xB9, CHR 0x20,
   CHR 0xD0, CHR 0xBD, CHR 0xD0, CHR 0xB0, CHR 0x20, CHR 0xD1, CHR 0x83, CHR 0xD0,
   CHR 0xB6, CHR 0xD0, CHR 0xB8, CHR 0xD0, CHR 0xBD]"

definition name_mandarin_tale :: string where
  \<comment> \<open>line 22 of the source; in English: Mandarin fairy tale\<close>
  "name_mandarin_tale = [
   CHR 0xD0, CHR 0x9C, CHR 0xD0, CHR 0xB0, CHR 0xD0, CHR 0xBD, CHR 0xD0, CHR 0xB4,
   CHR 0xD0, CHR 0xB0, CHR 0xD1, CHR 0x80, CHR 0xD0, CHR 0xB8, CHR 0xD0, CHR 0xBD,
   CHR 0xD0, CHR 0xBE, CHR 0xD0, CHR 0xB2, CHR 0xD0, CHR 0xB0, CHR 0xD1, CHR 0x8F,
   CHR 0x20, CHR 0xD1, CHR 0x81, CHR 0xD0, CHR 0xBA, CHR 0xD0, CHR 0xB0, CHR 0xD0,
   CHR 0xB7, CHR 0xD0, CHR 0xBA, CHR 0xD0, CHR 0xB0]"

definition name_ideal_for_baking :: string where
  \<comment> \<open>line 23 of the source; in English: Ideal for baking\<close>
  "name_ideal_for_baking = [
   CHR 0xD0, CHR 0x98, CHR 0xD0, CHR 0xB4, CHR 0xD0, CHR 0xB5, CHR 0xD0, CHR 0xB0,
   CHR 0xD0, CHR 0xBB, CHR 0xD1, CHR 0x8C, CHR 0xD0, CHR 0xBD, CHR 0xD0, CHR 0xBE,
   CHR 0x20, CHR 0xD0, CHR 0xB4, CHR 0xD0, CHR 0xBB, CHR 0xD1, CHR 0x8F, CHR 0x20,
   CHR 0xD0, CHR 0xB7, CHR 0xD0, CHR 0xB0, CHR 0xD0, CHR 0xBF, CHR 0xD0, CHR 0xB5,
   CHR 0xD0, CHR 0xBA, CHR 0xD0, CHR 0xB0, CHR 0xD0, CHR 0xBD, CHR 0xD0, CHR 0xB8,
   CHR 0xD1, CHR 0x8F]"

definition name_pour_boiling_water :: string where
  \<comment> \<open>line 24 of the source; in English: Pour boiling water over\<close>
  "name_pour_boiling_water = [
   CHR 0xD0, CHR 0x97, CHR 0xD0, CHR 0xB0, CHR 0xD0, CHR 0xBB, CHR 0xD0, CHR 0xB8,
   CHR 0xD1, CHR 0x82, CHR 0xD1, CHR 0x8C, CHR 0x20, CHR 0xD0, CHR 0xBA, CHR 0xD0,
   CHR 0xB8, CHR 0xD0, CHR 0xBF, CHR 0xD1, CHR 0x8F, CHR 0xD1, CHR 0x82, CHR 0xD0,
   CHR 0xBA, CHR 0xD0, CHR 0xBE, CHR 0xD0, CHR 0xBC]"

definition name_home_baking :: string where
  \<comment> \<open>line 25 of the source; in English: Home baking\<close>
  "name_home_baking = [
   CHR 0xD0, CHR 0x94, CHR 0xD0, CHR 0xBE, CHR 0xD0, CHR 0xBC, CHR 0xD0, CHR 0xB0,
   CHR 0xD1, CHR 0x88, CHR 0xD0, CHR 0xBD, CHR 0xD1, CHR 0x8F, CHR 0xD1, CHR 0x8F,
   CHR 0x20, CHR 0xD0, CHR 0xB2, CHR 0xD1, CHR 0x8B, CHR 0xD0, CHR 0xBF, CHR 0xD0,
   CHR 0xB5, CHR 0xD1, CHR 0x87, CHR 0xD0, CHR 0xBA, CHR 0xD0, CHR 0xB0]"

definition saved_message :: string where
  "saved_message = [
   CHR 0x0A, CHR 0xD0, CHR 0xA1, CHR 0xD0, CHR 0xBE, CHR 0xD1, CHR 0x85, CHR 0xD1,
   CHR 0x80, CHR 0xD0, CHR 0xB0, CHR 0xD0, CHR 0xBD, CHR 0xD0, CHR 0xB5, CHR 0xD0,
   CHR 0xBD, CHR 0xD0, CHR 0xBE, CHR 0x20, CHR 0xD0, CHR 0xB2, CHR 0x20, CHR 0x70,
   CHR 0x72, CHR 0x6F, CHR 0x64, CHR 0x75, CHR 0x63, CHR 0x74, CHR 0x5F, CHR 0x63,
   CHR 0x61, CHR 0x74, CHR 0x65, CHR 0x67, CHR 0x6F, CHR 0x72, CHR 0x69, CHR 0x65,
   CHR 0x73, CHR 0x2E, CHR 0x74, CHR 0x78, CHR 0x74]"

definition EXCLUDE_NAMES :: "string set" where
  "EXCLUDE_NAMES =
     {name_all_goods_of_category, name_all_goods_of_section, name_petelinka_dinner,
      name_mandarin_tale, name_ideal_for_baking, name_pour_boiling_water,
      name_home_baking}"

subsection \<open>extract_category (lines 28 to 42)\<close>

text \<open>
  \<open>extract_children\<close> is the loop of lines 34 to 38 with its accumulator \<^verbatim>\<open>children\<close>.
  \<^verbatim>\<open>cat["name"]\<close> and \<^verbatim>\<open>child["name"]\<close> raise \<^verbatim>\<open>KeyError\<close> on an absent key;
  \<^verbatim>\<open>cat.get("children")\<close> is false for an absent key and for an empty list.
\<close>

fun extract_category :: "CatalogNode \<Rightarrow> error + FilteredNode"
  and extract_children :: "CatalogNode list \<Rightarrow> FilteredNode list \<Rightarrow> error + FilteredNode list"
where
  "extract_category (CatalogNode i nm p ch) =
     (case nm of
        None \<Rightarrow> Inl (KeyError ''name'')
      | Some n \<Rightarrow>
          (case ch of
             None \<Rightarrow> Inr (FilteredNode n None)
           | Some cs \<Rightarrow>
               if cs = [] then Inr (FilteredNode n None)
               else (case extract_children cs [] of
                       Inl e \<Rightarrow> Inl e
                     | Inr children \<Rightarrow>
                         if children = [] then Inr (FilteredNode n None)
                         else Inr (FilteredNode n (Some children)))))"
| "extract_children [] children = Inr children"
| "extract_children (child # rest) children =
     (case cat_name child of
        None \<Rightarrow> Inl (KeyError ''name'')
      | Some n \<Rightarrow>
          if n \<in> EXCLUDE_NAMES then extract_children rest children
          else (case extract_category child of
                  Inl e \<Rightarrow> Inl e
                | Inr r \<Rightarrow> extract_children rest (children @ [r])))"

subsection \<open>main (lines 44 to 72)\<close>

text \<open>The loop of lines 50 to 56 with its accumulator \<^verbatim>\<open>result\<close>.\<close>

fun main_loop :: "CatalogNode list \<Rightarrow> FilteredNode list \<Rightarrow> error + FilteredNode list" where
  "main_loop [] result = Inr result"
| "main_loop (cat # rest) result =
     (case cat_id cat of
        None \<Rightarrow> Inl (KeyError ''id'')
      | Some i \<Rightarrow>
          if i \<in> EXCLUDE_CATEGORY_IDS then main_loop rest result
          else if cat_parent_id cat = Some 0 then
            (case extract_category cat of
               Inl e \<Rightarrow> Inl e
             | Inr r \<Rightarrow> main_loop rest (result @ [r]))
          else main_loop rest result)"

text \<open>
  Writing text. A string with a lone surrogate has no UTF-8 encoding: in the bytes of a
  string \<^verbatim>\<open>ED\<close> only starts a three-byte character, which is a surrogate exactly when
  its second byte is \<^verbatim>\<open>A0\<close> or more.
\<close>

fun has_surrogate :: "string \<Rightarrow> bool" where
  "has_surrogate (a # b # s) =
     (a = CHR 0xED \<and> (0xA0 :: nat) \<le> of_char b \<and> of_char b \<le> (0xBF :: nat) \<or>
      has_surrogate (b # s))"
| "has_surrogate s = False"

definition utf8_encodable :: "string \<Rightarrow> bool" where
  "utf8_encodable s = (\<not> has_surrogate s)"

text \<open>
  \<^verbatim>\<open>file.write\<close> on the output file, opened with \<^verbatim>\<open>encoding="utf-8"\<close>: it encodes the
  whole text before it appends any of it, and raises on text it cannot encode.
\<close>

definition file_write :: "string \<Rightarrow> world \<Rightarrow> (error + unit) \<times> world" where
  "file_write s w =
     (if utf8_encodable s then
        (Inr (),
         w\<lparr>product_categories_txt := map_option (\<lambda>t. t @ s) (product_categories_txt w)\<rparr>)
      else (Inl UnicodeEncodeError, w))"

text \<open>
  \<^verbatim>\<open>print\<close>. The encoding of the console is not the script's choice: \<open>console\<close> says
  which texts \<^verbatim>\<open>sys.stdout\<close> can encode, and is the same for the whole run. Text the
  console cannot encode raises before anything of it is printed.
\<close>

definition print :: "(string \<Rightarrow> bool) \<Rightarrow> string \<Rightarrow> world \<Rightarrow> (error + unit) \<times> world" where
  "print console s w =
     (if console s then (Inr (), w\<lparr>stdout := stdout w @ s @ ''\<newline>''\<rparr>)
      else (Inl UnicodeEncodeError, w))"

text \<open>
  \<^verbatim>\<open>print_tree\<close> (lines 59 to 67). The flag \<open>file\<close> says whether a file object was
  passed; the only one the script has is the open output file. An exception ends the
  walk and leaves what was written before it.
\<close>

fun print_tree ::
  "(string \<Rightarrow> bool) \<Rightarrow> FilteredNode list \<Rightarrow> nat \<Rightarrow> bool \<Rightarrow> world \<Rightarrow> (error + unit) \<times> world"
where
  "print_tree console [] level file w = (Inr (), w)"
| "print_tree console (FilteredNode n ch # cats) level file w =
     (let line = replicate (level + 1) CHR ''-'' @ n in
      case (if file then file_write (line @ ''\<newline>'') w else (Inr (), w)) of
        (Inl e, w1) \<Rightarrow> (Inl e, w1)
      | (Inr u, w1) \<Rightarrow>
          (case print console line w1 of
             (Inl e, w2) \<Rightarrow> (Inl e, w2)
           | (Inr u, w2) \<Rightarrow>
               (case (case ch of
                        Some cs \<Rightarrow> print_tree console cs (level + 1) file w2
                      | None \<Rightarrow> (Inr (), w2)) of
                  (Inl e, w3) \<Rightarrow> (Inl e, w3)
                | (Inr u, w3) \<Rightarrow> print_tree console cats level file w3)))"

text \<open>
  \<^verbatim>\<open>main\<close>: every exception of lines 45 to 56 leaves the world as it was; line 69
  creates or truncates the output file, and leaving the \<^verbatim>\<open>with\<close> block, by the end of
  \<^verbatim>\<open>print_tree\<close> or by an exception, closes the file with what was written to it.
\<close>

definition main :: "(string \<Rightarrow> bool) \<Rightarrow> world \<Rightarrow> (error + unit) \<times> world" where
  "main console w =
     (case categories_json w of
        NoFile \<Rightarrow> (Inl FileNotFoundError, w)
      | NotJson \<Rightarrow> (Inl JSONDecodeError, w)
      | Json data \<Rightarrow>
          (case data of
             None \<Rightarrow> (Inl (KeyError ''categories''), w)
           | Some categories \<Rightarrow>
               (case main_loop categories [] of
                  Inl e \<Rightarrow> (Inl e, w)
                | Inr result \<Rightarrow>
                    (case print_tree console result 0 True
                            (w\<lparr>product_categories_txt := Some []\<rparr>) of
                       (Inl e, w1) \<Rightarrow> (Inl e, w1)
                     | (Inr u, w1) \<Rightarrow> print console saved_message w1))))"

subsection \<open>Notions used to state the properties\<close>

text \<open>The children the loop of line 34 runs over: none when the key is absent.\<close>

definition kids :: "CatalogNode \<Rightarrow> CatalogNode list" where
  "kids cat = (case cat_children cat of None \<Rightarrow> [] | Some cs \<Rightarrow> cs)"

text \<open>The two exclusion tests, of line 36 and of line 52.\<close>

definition name_excluded :: "CatalogNode \<Rightarrow> bool" where
  "name_excluded cat = (case cat_name cat of None \<Rightarrow> False | Some n \<Rightarrow> n \<in> EXCLUDE_NAMES)"

definition id_excluded :: "CatalogNode \<Rightarrow> bool" where
  "id_excluded cat = (case cat_id cat of None \<Rightarrow> False | Some i \<Rightarrow> i \<in> EXCLUDE_CATEGORY_IDS)"

text \<open>
  The root selector as the specification words it: the entries whose \<^verbatim>\<open>parent_id\<close> is
  zero and whose \<^verbatim>\<open>id\<close> is not in the id-exclusion set, in document order.
\<close>

definition is_root :: "CatalogNode \<Rightarrow> bool" where
  "is_root cat = (cat_parent_id cat = Some 0)"

definition root_selector :: "CatalogNode list \<Rightarrow> CatalogNode list" where
  "root_selector cats = [c \<leftarrow> cats. is_root c \<and> \<not> id_excluded c]"

text \<open>
  The renderer as the specification words it: a pre-order walk in which a node gives one
  line, the dashes for its depth followed by its name, and then the lines of its children.
\<close>

fun node_lines :: "nat \<Rightarrow> FilteredNode \<Rightarrow> string list" where
  "node_lines depth (FilteredNode n None) = [replicate (depth + 1) CHR ''-'' @ n]"
| "node_lines depth (FilteredNode n (Some cs)) =
     (replicate (depth + 1) CHR ''-'' @ n) # concat (map (node_lines (depth + 1)) cs)"

definition render_lines :: "nat \<Rightarrow> FilteredNode list \<Rightarrow> string list" where
  "render_lines depth cats = concat (map (node_lines depth) cats)"

text \<open>The text of a sequence of lines, each ended by a newline.\<close>

definition text_of :: "string list \<Rightarrow> string" where
  "text_of ls = concat (map (\<lambda>l. l @ ''\<newline>'') ls)"

fun count_nodes :: "FilteredNode \<Rightarrow> nat" where
  "count_nodes (FilteredNode n None) = 1"
| "count_nodes (FilteredNode n (Some cs)) = 1 + sum_list (map count_nodes cs)"

text \<open>
  Emitting a sequence of lines one after the other, each first to the file (when one is
  passed) and then to the console, until a line cannot be encoded: the outcome, the text
  that has gone to the file and the text that has gone to the console.
\<close>

fun emitted :: "(string \<Rightarrow> bool) \<Rightarrow> bool \<Rightarrow> string list \<Rightarrow> (error + unit) \<times> string \<times> string" where
  "emitted console fl [] = (Inr (), [], [])"
| "emitted console fl (l # ls) =
     (if fl \<and> \<not> utf8_encodable (l @ ''\<newline>'') then (Inl UnicodeEncodeError, [], [])
      else if \<not> console l then
        (Inl UnicodeEncodeError, (if fl then l @ ''\<newline>'' else []), [])
      else (case emitted console fl ls of
              (r, f, c) \<Rightarrow> (r, (if fl then l @ ''\<newline>'' else []) @ f, l @ ''\<newline>'' @ c)))"

text \<open>
  The invariant of the filtered tree: at every node the key \<^verbatim>\<open>children\<close> is absent or
  holds a non-empty list.
\<close>

fun children_nonempty :: "FilteredNode \<Rightarrow> bool" where
  "children_nonempty (FilteredNode n None) = True"
| "children_nonempty (FilteredNode n (Some cs)) = (cs \<noteq> [] \<and> list_all children_nonempty cs)"

text \<open>
  The shape of a tree: the names and the nesting, and nothing else. Of a catalog entry it
  forgets \<^verbatim>\<open>id\<close> and \<^verbatim>\<open>parent_id\<close>; an absent and an empty list of children are
  the same shape.
\<close>

datatype name_tree = NameTree "string option" "name_tree list"

fun catalog_shape :: "CatalogNode \<Rightarrow> name_tree" where
  "catalog_shape (CatalogNode i nm p None) = NameTree nm []"
| "catalog_shape (CatalogNode i nm p (Some cs)) = NameTree nm (map catalog_shape cs)"

fun filtered_shape :: "FilteredNode \<Rightarrow> name_tree" where
  "filtered_shape (FilteredNode n None) = NameTree (Some n) []"
| "filtered_shape (FilteredNode n (Some cs)) = NameTree (Some n) (map filtered_shape cs)"

text \<open>No node of the tree bears an excluded name; every node of the tree has a name.\<close>

fun no_excluded_names :: "CatalogNode \<Rightarrow> bool" where
  "no_excluded_names (CatalogNode i nm p None) =
     (case nm of None \<Rightarrow> True | Some n \<Rightarrow> n \<notin> EXCLUDE_NAMES)"
| "no_excluded_names (CatalogNode i nm p (Some cs)) =
     ((case nm of None \<Rightarrow> True | Some n \<Rightarrow> n \<notin> EXCLUDE_NAMES) \<and>
      list_all no_excluded_names cs)"

fun all_named :: "CatalogNode \<Rightarrow> bool" where
  "all_named (CatalogNode i nm p None) = (nm \<noteq> None)"
| "all_named (CatalogNode i nm p (Some cs)) = (nm \<noteq> None \<and> list_all all_named cs)"

text \<open>
  The names of a filtered tree in pre-order, and the names strictly below its root.
\<close>

fun tree_names :: "FilteredNode \<Rightarrow> string list" where
  "tree_names (FilteredNode n None) = [n]"
| "tree_names (FilteredNode n (Some cs)) = n # concat (map tree_names cs)"

fun names_below :: "FilteredNode \<Rightarrow> string list" where
  "names_below (FilteredNode n None) = []"
| "names_below (FilteredNode n (Some cs)) = concat (map tree_names cs)"

text \<open>
  The catalog entry without its descendants that bear an excluded name, at every depth,
  each removed with its subtree. The entry itself stays, whatever its name.
\<close>

fun prune :: "CatalogNode \<Rightarrow> CatalogNode" where
  "prune (CatalogNode i nm p None) = CatalogNode i nm p None"
| "prune (CatalogNode i nm p (Some cs)) =
     CatalogNode i nm p (Some (map prune [c \<leftarrow> cs. \<not> name_excluded c]))"

text \<open>
  The nodes \<^verbatim>\<open>extract_category\<close> is called on when it is called on a node, as long as
  no exception stops it: the node itself and, by line 38, what is visited from each of
  its children whose name is present and not excluded.
\<close>

fun visited :: "CatalogNode \<Rightarrow> CatalogNode list" where
  "visited (CatalogNode i nm p None) = [CatalogNode i nm p None]"
| "visited (CatalogNode i nm p (Some cs)) =
     CatalogNode i nm p (Some cs) #
     concat (map visited [c \<leftarrow> cs. cat_name c \<noteq> None \<and> \<not> name_excluded c])"

subsection \<open>Example catalogs\<close>

text \<open>The example catalog of the specification, and a world holding it.\<close>

definition example_fruits :: CatalogNode where
  "example_fruits =
     CatalogNode (Some 1) (Some ''Fruits'') (Some 0)
       (Some [CatalogNode None (Some ''Apples'') None None,
              CatalogNode None (Some name_all_goods_of_category) None None])"

definition example_promo :: CatalogNode where
  "example_promo = CatalogNode (Some 11372526) (Some ''Promo'') (Some 0) None"

definition example_categories :: "CatalogNode list" where
  "example_categories = [example_fruits, example_promo]"

definition world_of :: "CatalogNode list \<Rightarrow> world" where
  "world_of cats =
     \<lparr>categories_json = Json (Some cats), product_categories_txt = None, stdout = []\<rparr>"

text \<open>
  Two consoles: one that encodes in UTF-8, one that encodes in ASCII and so refuses any
  byte above 127.
\<close>

definition utf8_console :: "string \<Rightarrow> bool" where
  "utf8_console s = utf8_encodable s"

definition ascii_console :: "string \<Rightarrow> bool" where
  "ascii_console s = list_all (\<lambda>c. of_char c < (128 :: nat)) s"

text \<open>
  A catalog whose second root bears a name with the lone surrogate that the JSON escape
  \<^verbatim>\<open>\ud800\<close> gives.
\<close>

definition example_surrogate :: "CatalogNode list" where
  "example_surrogate =
     [CatalogNode (Some 1) (Some ''A'') (Some 0) None,
      CatalogNode (Some 2) (Some [CHR 0xED, CHR 0xA0, CHR 0x80]) (Some 0) None]"

text \<open>A catalog whose second root of three bears a name that is not ASCII.\<close>

definition example_cyrillic :: "CatalogNode list" where
  "example_cyrillic =
     [CatalogNode (Some 1) (Some ''A'') (Some 0) None,
      CatalogNode (Some 2) (Some name_home_baking) (Some 0) None,
      CatalogNode (Some 3) (Some ''B'') (Some 0) None]"

text \<open>A top-level entry that is not a root and has no \<^verbatim>\<open>id\<close>.\<close>

definition example_orphan :: CatalogNode where
  "example_orphan = CatalogNode None (Some ''Orphan'') (Some 7) None"

text \<open>A world in which an earlier run has left an output file and console text.\<close>

definition example_world_old :: world where
  "example_world_old =
     \<lparr>categories_json = Json (Some example_categories),
      product_categories_txt = Some ''stale text'', stdout = ''earlier output''\<rparr>"

text \<open>The specification's node all of whose children are excluded by name.\<close>

definition example_leaf :: CatalogNode where
  "example_leaf =
     CatalogNode (Some 2) (Some ''Leaf'') (Some 0)
       (Some [CatalogNode None (Some name_petelinka_dinner) None None])"

text \<open>A catalog without excluded ids or names: one root with a child, and a non-root entry.\<close>

definition example_plain_root :: CatalogNode where
  "example_plain_root =
     CatalogNode (Some 1) (Some ''Fruits'') (Some 0)
       (Some [CatalogNode (Some 4) (Some ''Apples'') (Some 1) (Some [])])"

definition example_plain :: "CatalogNode list" where
  "example_plain =
     [example_plain_root, CatalogNode (Some 4) (Some ''Apples'') (Some 1) (Some [])]"

text \<open>A root whose name is in the name-exclusion set.\<close>

definition example_excluded_root :: CatalogNode where
  "example_excluded_root = CatalogNode (Some 1) (Some name_home_baking) (Some 0) None"

text \<open>An excluded name two levels below a root, with a child of its own.\<close>

definition example_deep :: CatalogNode where
  "example_deep =
     CatalogNode (Some 1) (Some ''Fruits'') (Some 0)
       (Some [CatalogNode None (Some ''Apples'') None
                (Some [CatalogNode None (Some name_home_baking) None
                         (Some [CatalogNode None (Some ''Pies'') None None]),
                       CatalogNode None (Some ''Green'') None None])])"

text \<open>A root with a child whose id is in the id-exclusion set.\<close>

definition example_nested_id :: CatalogNode where
  "example_nested_id =
     CatalogNode (Some 1) (Some ''Fruits'') (Some 0)
       (Some [CatalogNode (Some 7107) (Some ''Apples'') (Some 1) None])"

text \<open>
  Three entries without a name that the script never reads: a top-level entry that is
  not a root, a root excluded by id, and a node below a child excluded by name.
\<close>

definition example_unread :: "CatalogNode list" where
  "example_unread =
     [CatalogNode (Some 5) None (Some 1) None,
      CatalogNode (Some 11372526) None (Some 0) None,
      CatalogNode (Some 1) (Some ''Fruits'') (Some 0)
        (Some [CatalogNode None (Some name_home_baking) None
                 (Some [CatalogNode None None None None])])]"

text \<open>A node without a name below a visited child of a root.\<close>

definition example_nameless_child :: CatalogNode where
  "example_nameless_child =
     CatalogNode (Some 1) (Some ''Fruits'') (Some 0)
       (Some [CatalogNode None (Some ''Apples'') None
                (Some [CatalogNode None None None None])])"

section \<open>Properties\<close>

subsection \<open>The two loops without their accumulators\<close>

lemma name_excluded_iff:
  "name_excluded cat \<longleftrightarrow> (\<exists>n. cat_name cat = Some n \<and> n \<in> EXCLUDE_NAMES)"
  by (simp add: name_excluded_def split: option.splits)

lemma id_excluded_iff:
  "id_excluded cat \<longleftrightarrow> (\<exists>i. cat_id cat = Some i \<and> i \<in> EXCLUDE_CATEGORY_IDS)"
  by (simp add: id_excluded_def split: option.splits)

lemma extract_children_acc:
  "extract_children cs acc =
     (case extract_children cs [] of Inl e \<Rightarrow> Inl e | Inr r \<Rightarrow> Inr (acc @ r))"
proof (induction cs arbitrary: acc)
  case Nil
  show ?case by simp
next
  case (Cons c cs)
  note IH = Cons.IH
  show ?case
  proof (cases "cat_name c")
    case None
    then show ?thesis by simp
  next
    case (Some n)
    show ?thesis
    proof (cases "n \<in> EXCLUDE_NAMES")
      case True
      with Some IH [of acc] show ?thesis by simp
    next
      case False
      show ?thesis
      proof (cases "extract_category c")
        case (Inl e)
        with Some False show ?thesis by simp
      next
        case (Inr r)
        with Some False IH [of "acc @ [r]"] IH [of "[r]"] show ?thesis
          by (simp split: sum.splits)
      qed
    qed
  qed
qed

lemma main_loop_acc:
  "main_loop cats acc =
     (case main_loop cats [] of Inl e \<Rightarrow> Inl e | Inr r \<Rightarrow> Inr (acc @ r))"
proof (induction cats arbitrary: acc)
  case Nil
  show ?case by simp
next
  case (Cons c cats)
  note IH = Cons.IH
  show ?case
  proof (cases "cat_id c")
    case None
    then show ?thesis by simp
  next
    case (Some i)
    show ?thesis
    proof (cases "i \<notin> EXCLUDE_CATEGORY_IDS \<and> cat_parent_id c = Some 0")
      case False
      with Some IH [of acc] show ?thesis by auto
    next
      case True
      show ?thesis
      proof (cases "extract_category c")
        case (Inl e)
        with Some True show ?thesis by simp
      next
        case (Inr r)
        with Some True IH [of "acc @ [r]"] IH [of "[r]"] show ?thesis
          by (simp split: sum.splits)
      qed
    qed
  qed
qed

lemma main_loop_append:
  "main_loop (xs @ ys) acc =
     (case main_loop xs acc of Inl e \<Rightarrow> Inl e | Inr r \<Rightarrow> main_loop ys r)"
  by (induction xs arbitrary: acc) (simp_all split: option.splits sum.splits)

lemma extract_children_Cons [simp]:
  "extract_children (c # cs) [] =
     (case cat_name c of
        None \<Rightarrow> Inl (KeyError ''name'')
      | Some n \<Rightarrow>
          if n \<in> EXCLUDE_NAMES then extract_children cs []
          else (case extract_category c of
                  Inl e \<Rightarrow> Inl e
                | Inr r \<Rightarrow> (case extract_children cs [] of
                             Inl e \<Rightarrow> Inl e
                           | Inr rs \<Rightarrow> Inr (r # rs))))"
  by (simp add: extract_children_acc [where acc = "[r]" for r] split: option.splits sum.splits)

lemma main_loop_Cons [simp]:
  "main_loop (c # cs) [] =
     (case cat_id c of
        None \<Rightarrow> Inl (KeyError ''id'')
      | Some i \<Rightarrow>
          if i \<in> EXCLUDE_CATEGORY_IDS then main_loop cs []
          else if cat_parent_id c = Some 0 then
            (case extract_category c of
               Inl e \<Rightarrow> Inl e
             | Inr r \<Rightarrow> (case main_loop cs [] of
                          Inl e \<Rightarrow> Inl e
                        | Inr rs \<Rightarrow> Inr (r # rs)))
          else main_loop cs [])"
  by (simp add: main_loop_acc [where acc = "[r]" for r] split: option.splits sum.splits)

declare extract_children.simps(2) [simp del] main_loop.simps(2) [simp del]

lemma extract_children_InrD:
  "extract_children cs [] = Inr fs \<Longrightarrow>
     (\<forall>c \<in> set cs. cat_name c \<noteq> None) \<and>
     list_all2 (\<lambda>c f. extract_category c = Inr f) [c \<leftarrow> cs. \<not> name_excluded c] fs"
  by (induction cs arbitrary: fs)
     (auto simp: name_excluded_iff split: option.splits sum.splits if_splits)

lemma extract_children_InrI:
  "\<forall>c \<in> set cs. cat_name c \<noteq> None \<Longrightarrow>
   list_all2 (\<lambda>c f. extract_category c = Inr f) [c \<leftarrow> cs. \<not> name_excluded c] fs \<Longrightarrow>
   extract_children cs [] = Inr fs"
  by (induction cs arbitrary: fs)
     (auto simp: name_excluded_iff list_all2_Cons1 split: option.splits sum.splits if_splits)

lemma main_loop_InrD:
  "main_loop cats [] = Inr res \<Longrightarrow>
     (\<forall>c \<in> set cats. cat_id c \<noteq> None) \<and>
     list_all2 (\<lambda>c f. extract_category c = Inr f) (root_selector cats) res"
  by (induction cats arbitrary: res)
     (auto simp: root_selector_def is_root_def id_excluded_iff
           split: option.splits sum.splits if_splits)

lemma main_loop_InrI:
  "\<forall>c \<in> set cats. cat_id c \<noteq> None \<Longrightarrow>
   list_all2 (\<lambda>c f. extract_category c = Inr f) (root_selector cats) res \<Longrightarrow>
   main_loop cats [] = Inr res"
  by (induction cats arbitrary: res)
     (auto simp: root_selector_def is_root_def id_excluded_iff list_all2_Cons1
           split: option.splits sum.splits if_splits)

lemma main_loop_missing_id:
  "c \<in> set cats \<Longrightarrow> cat_id c = None \<Longrightarrow> \<exists>e. main_loop cats [] = Inl e"
  by (induction cats) (auto split: option.splits sum.splits)

subsection \<open>The examples, evaluated\<close>

lemma example_names [simp]:
  "''Apples'' \<notin> EXCLUDE_NAMES" "''Fruits'' \<notin> EXCLUDE_NAMES"
  "name_all_goods_of_category \<in> EXCLUDE_NAMES"
  by (simp_all add: EXCLUDE_NAMES_def name_all_goods_of_category_def
        name_all_goods_of_section_def name_petelinka_dinner_def name_mandarin_tale_def
        name_ideal_for_baking_def name_pour_boiling_water_def name_home_baking_def)

lemma example_ids [simp]:
  "1 \<notin> EXCLUDE_CATEGORY_IDS" "11372526 \<in> EXCLUDE_CATEGORY_IDS"
  by (simp_all add: EXCLUDE_CATEGORY_IDS_def)

lemma extract_example_fruits:
  "extract_category example_fruits =
     Inr (FilteredNode ''Fruits'' (Some [FilteredNode ''Apples'' None]))"
  by (simp add: example_fruits_def)

subsection \<open>Root selection\<close>

text \<open>
  Claim C3. The loop of \<^verbatim>\<open>main\<close> returns a list exactly when every top-level entry has
  an \<^verbatim>\<open>id\<close> and every selected root can be extracted, and then the list holds, in
  document order, the extraction of exactly the entries whose \<^verbatim>\<open>parent_id\<close> is 0 and
  whose \<^verbatim>\<open>id\<close> is not in the id-exclusion set.
\<close>

theorem root_selection:
  "main_loop cats [] = Inr res \<longleftrightarrow>
     (\<forall>c \<in> set cats. cat_id c \<noteq> None) \<and>
     list_all2 (\<lambda>c f. extract_category c = Inr f) (root_selector cats) res"
  using main_loop_InrD [of cats res] main_loop_InrI [of cats res] by blast

theorem root_selection_witness:
  "map cat_id example_categories = [Some 1, Some 11372526] \<and>
   root_selector example_categories = [example_fruits] \<and>
   main_loop example_categories [] =
     Inr [FilteredNode ''Fruits'' (Some [FilteredNode ''Apples'' None])]"
proof -
  have sel: "root_selector example_categories = [example_fruits]"
    by (simp add: root_selector_def example_categories_def example_fruits_def
          example_promo_def is_root_def id_excluded_def)
  have ids: "\<forall>c \<in> set example_categories. cat_id c \<noteq> None"
    by (simp add: example_categories_def example_fruits_def example_promo_def)
  have "map cat_id example_categories = [Some 1, Some 11372526]"
    by (simp add: example_categories_def example_fruits_def example_promo_def)
  with ids sel extract_example_fruits
    root_selection [of example_categories
      "[FilteredNode ''Fruits'' (Some [FilteredNode ''Apples'' None])]"]
  show ?thesis by simp
qed

subsection \<open>A top-level entry without an id\<close>

text \<open>
  Claim C10. Line 52 reads \<^verbatim>\<open>cat["id"]\<close> of every top-level entry before line 55 looks
  at \<^verbatim>\<open>parent_id\<close>: a top-level entry without an \<^verbatim>\<open>id\<close> makes the run fail, whatever
  its \<^verbatim>\<open>parent_id\<close> is, and the failure is \<^verbatim>\<open>KeyError('id')\<close> when the loop reaches
  that entry. The world is left as it was.
\<close>

theorem id_read_before_root_check:
  assumes "categories_json w = Json (Some cats)" and "c \<in> set cats" and "cat_id c = None"
  shows "(\<exists>e. main console w = (Inl e, w)) \<and>
         (\<forall>pre post acc. cats = pre @ c # post \<and> main_loop pre [] = Inr acc \<longrightarrow>
            main console w = (Inl (KeyError ''id''), w))"
proof -
  from main_loop_missing_id [OF assms(2,3)] obtain e where "main_loop cats [] = Inl e" ..
  with assms(1) have first: "\<exists>e. main console w = (Inl e, w)" by (simp add: main_def)
  have "main console w = (Inl (KeyError ''id''), w)"
    if "cats = pre @ c # post" and "main_loop pre [] = Inr acc" for pre post acc
    using that assms(1,3)
    by (simp add: main_def main_loop_append main_loop.simps(2) del: main_loop_Cons)
  with first show ?thesis by blast
qed

theorem id_read_before_root_check_witness:
  "cat_id example_orphan = None \<and> cat_parent_id example_orphan \<noteq> Some 0 \<and>
   main utf8_console (world_of [example_fruits, example_orphan]) =
     (Inl (KeyError ''id''), world_of [example_fruits, example_orphan])"
proof -
  let ?cats = "[example_fruits, example_orphan]"
  have a: "categories_json (world_of ?cats) = Json (Some ?cats)"
    by (simp add: world_of_def)
  have b: "example_orphan \<in> set ?cats" by simp
  have c: "cat_id example_orphan = None" "cat_parent_id example_orphan \<noteq> Some 0"
    by (simp_all add: example_orphan_def)
  have d: "?cats = [example_fruits] @ example_orphan # []" by simp
  have e: "main_loop [example_fruits] [] =
      Inr [FilteredNode ''Fruits'' (Some [FilteredNode ''Apples'' None])]"
    by (simp add: extract_example_fruits) (simp add: example_fruits_def)
  from id_read_before_root_check [OF a b c(1), of utf8_console] d e
  have "main utf8_console (world_of ?cats) = (Inl (KeyError ''id''), world_of ?cats)" by blast
  with c show ?thesis by simp
qed

subsection \<open>Rendering and the run as a whole\<close>

lemma text_of_simps [simp]:
  "text_of [] = []" "text_of (l # ls) = l @ ''\<newline>'' @ text_of ls"
  "text_of (xs @ ys) = text_of xs @ text_of ys"
  by (simp_all add: text_of_def)

lemma render_lines_simps [simp]:
  "render_lines d [] = []"
  "render_lines d (c # cs) = node_lines d c @ render_lines d cs"
  by (simp_all add: render_lines_def)

lemma emitted_append:
  "emitted console fl (xs @ ys) =
     (case emitted console fl xs of
        (Inl e, f, c) \<Rightarrow> (Inl e, f, c)
      | (Inr u, f, c) \<Rightarrow>
          (case emitted console fl ys of (r, f', c') \<Rightarrow> (r, f @ f', c @ c')))"
  by (induction xs) (auto split: prod.splits sum.splits)

lemma emitted_all_encodable:
  "\<forall>l \<in> set ls. (fl \<longrightarrow> utf8_encodable (l @ ''\<newline>'')) \<and> console l \<Longrightarrow>
   emitted console fl ls = (Inr (), (if fl then text_of ls else []), text_of ls)"
  by (induction ls) auto

lemma emitted_Inl: "emitted console fl ls = (Inl e, f, c) \<Longrightarrow> e = UnicodeEncodeError"
  by (induction ls arbitrary: f c) (auto split: prod.splits if_splits)

lemma emitted_prefix:
  "\<exists>k \<le> length ls.
     fst (snd (emitted console fl ls)) = (if fl then text_of (take k ls) else []) \<and>
     (fst (emitted console fl ls) = Inr () \<longrightarrow> k = length ls)"
proof (induction ls)
  case Nil
  show ?case by simp
next
  case (Cons l ls)
  then obtain k where k: "k \<le> length ls"
    "fst (snd (emitted console fl ls)) = (if fl then text_of (take k ls) else [])"
    "fst (emitted console fl ls) = Inr () \<longrightarrow> k = length ls"
    by blast
  show ?case
  proof (cases "fl \<and> \<not> utf8_encodable (l @ ''\<newline>'')")
    case True
    then show ?thesis by (intro exI [of _ 0]) simp
  next
    case enc: False
    show ?thesis
    proof (cases "console l")
      case False
      with enc show ?thesis by (intro exI [of _ 1]) auto
    next
      case True
      with enc k show ?thesis
        by (intro exI [of _ "Suc k"]) (auto split: prod.splits)
    qed
  qed
qed

lemma print_tree_emitted:
  "print_tree console cats level fl w =
     (case emitted console fl (render_lines level cats) of
        (r, f, c) \<Rightarrow>
          (r, w\<lparr>product_categories_txt := map_option (\<lambda>t. t @ f) (product_categories_txt w),
                 stdout := stdout w @ c\<rparr>))"
proof (induction console cats level fl w rule: print_tree.induct)
  case (1 console level fl w)
  show ?case by (simp add: option.map_ident)
next
  case (2 console n ch cats level fl w)
  show ?case
  proof (cases ch)
    case None
    with 2 show ?thesis
      by (auto simp: Let_def file_write_def print_def option.map_comp comp_def
            option.map_ident split: prod.splits sum.splits if_splits)
  next
    case (Some cs)
    with 2 show ?thesis
      by (auto simp: Let_def file_write_def print_def option.map_comp comp_def
            option.map_ident emitted_append render_lines_def [symmetric]
            split: prod.splits sum.splits if_splits)
  qed
qed

lemma print_tree_all_encodable:
  assumes "\<forall>l \<in> set (render_lines level cats). (fl \<longrightarrow> utf8_encodable (l @ ''\<newline>'')) \<and> console l"
  shows "print_tree console cats level fl w =
     (Inr (),
      w\<lparr>product_categories_txt :=
           (if fl then map_option (\<lambda>t. t @ text_of (render_lines level cats))
                          (product_categories_txt w)
            else product_categories_txt w),
        stdout := stdout w @ text_of (render_lines level cats)\<rparr>)"
  by (simp add: print_tree_emitted emitted_all_encodable [OF assms] option.map_ident)

lemma length_node_lines: "length (node_lines d c) = count_nodes c"
proof (induction d c rule: node_lines.induct)
  case (1 depth n)
  show ?case by simp
next
  case (2 depth n cs)
  then show ?case
    by (simp add: length_concat comp_def cong: map_cong)
qed

lemma length_render_lines: 
  "length (render_lines d cs) = sum_list (map count_nodes cs)"
  by (simp add: render_lines_def length_concat comp_def length_node_lines)


lemma example_lines_encodable [simp]:
  "utf8_encodable ''-Fruits\<newline>''" "utf8_encodable ''--Apples\<newline>''"
  "utf8_console ''-Fruits''" "utf8_console ''--Apples''" "utf8_console saved_message"
  by (simp_all add: utf8_console_def utf8_encodable_def saved_message_def)

text \<open>
  Claim C4. \<^verbatim>\<open>print_tree\<close> emits the lines of a pre-order walk of the filtered roots,
  each first to the output file (when one is passed) and then to the console, each ended
  by a newline, and stops at the first line that cannot be encoded. A node gives exactly
  one line, \<^verbatim>\<open>'-'\<close> repeated \<open>level + 1\<close> times directly followed by its name; the lines
  of its children, one level deeper, come right after it and before the lines of its next
  sibling. When every line can be encoded the whole sequence is appended to both, and
  the number of lines is the number of nodes.
\<close>

theorem print_tree_preorder:
  "print_tree console cats level fl w =
     (case emitted console fl (render_lines level cats) of
        (r, f, c) \<Rightarrow>
          (r, w\<lparr>product_categories_txt := map_option (\<lambda>t. t @ f) (product_categories_txt w),
                 stdout := stdout w @ c\<rparr>)) \<and>
   ((\<forall>l \<in> set (render_lines level cats).
        (fl \<longrightarrow> utf8_encodable (l @ ''\<newline>'')) \<and> console l) \<longrightarrow>
    print_tree console cats level fl w =
      (Inr (),
       w\<lparr>product_categories_txt :=
            (if fl then map_option (\<lambda>t. t @ text_of (render_lines level cats))
                           (product_categories_txt w)
             else product_categories_txt w),
         stdout := stdout w @ text_of (render_lines level cats)\<rparr>)) \<and>
   render_lines level (FilteredNode n None # rest) =
     (replicate (level + 1) CHR ''-'' @ n) # render_lines level rest \<and>
   render_lines level (FilteredNode n (Some cs) # rest) =
     (replicate (level + 1) CHR ''-'' @ n) # render_lines (level + 1) cs @ render_lines level rest \<and>
   length (render_lines level cats) = sum_list (map count_nodes cats)"
  using print_tree_emitted [of console cats level fl w]
    print_tree_all_encodable [of level cats fl console w]
    length_render_lines [of level cats]
  by (simp add: render_lines_def)

theorem print_tree_preorder_witness:
  "render_lines 0 [FilteredNode ''Fruits'' (Some [FilteredNode ''Apples'' None])] =
     [''-Fruits'', ''--Apples''] \<and>
   list_all (\<lambda>l. utf8_encodable (l @ ''\<newline>'') \<and> utf8_console l) [''-Fruits'', ''--Apples''] \<and>
   print_tree utf8_console [FilteredNode ''Fruits'' (Some [FilteredNode ''Apples'' None])] 0 True
       \<lparr>categories_json = NoFile, product_categories_txt = Some [], stdout = []\<rparr> =
     (Inr (),
      \<lparr>categories_json = NoFile,
       product_categories_txt = Some (''-Fruits'' @ ''\<newline>'' @ ''--Apples'' @ ''\<newline>''),
       stdout = ''-Fruits'' @ ''\<newline>'' @ ''--Apples'' @ ''\<newline>''\<rparr>)"
proof -
  let ?cats = "[FilteredNode ''Fruits'' (Some [FilteredNode ''Apples'' None])]"
  let ?w = "\<lparr>categories_json = NoFile, product_categories_txt = Some [], stdout = []\<rparr>"
  have ls: "render_lines 0 ?cats = [''-Fruits'', ''--Apples'']"
    by (simp add: render_lines_def)
  have ok: "list_all (\<lambda>l. utf8_encodable (l @ ''\<newline>'') \<and> utf8_console l)
      [''-Fruits'', ''--Apples'']"
    by simp
  then have hyp: "\<forall>l \<in> set (render_lines 0 ?cats).
      (True \<longrightarrow> utf8_encodable (l @ ''\<newline>'')) \<and> utf8_console l"
    by (simp add: ls)
  from print_tree_preorder [of utf8_console ?cats 0 True ?w] hyp
  have "print_tree utf8_console ?cats 0 True ?w =
      (Inr (),
       ?w\<lparr>product_categories_txt :=
             map_option (\<lambda>t. t @ text_of (render_lines 0 ?cats)) (product_categories_txt ?w),
          stdout := stdout ?w @ text_of (render_lines 0 ?cats)\<rparr>)"
    by simp
  with ls ok show ?thesis by simp
qed

lemma main_Inl:
  "categories_json w = Json (Some cats) \<Longrightarrow> main_loop cats [] = Inl e \<Longrightarrow>
   main console w = (Inl e, w)"
  by (simp add: main_def)

lemma main_opened:
  "categories_json w = Json (Some cats) \<Longrightarrow> main_loop cats [] = Inr res \<Longrightarrow>
   main console w =
     (case emitted console True (render_lines 0 res) of
        (Inl e, f, c) \<Rightarrow>
          (Inl e, w\<lparr>product_categories_txt := Some f, stdout := stdout w @ c\<rparr>)
      | (Inr u, f, c) \<Rightarrow>
          if console saved_message then
            (Inr (),
             w\<lparr>product_categories_txt := Some f,
               stdout := stdout w @ c @ saved_message @ ''\<newline>''\<rparr>)
          else (Inl UnicodeEncodeError,
                w\<lparr>product_categories_txt := Some f, stdout := stdout w @ c\<rparr>))"
  by (simp add: main_def print_tree_emitted print_def split: prod.splits sum.splits)

lemma main_Inr:
  assumes "categories_json w = Json (Some cats)" and "main_loop cats [] = Inr res"
    and "\<forall>l \<in> set (render_lines 0 res). utf8_encodable (l @ ''\<newline>'') \<and> console l"
    and "console saved_message"
  shows "main console w =
     (Inr (),
      w\<lparr>product_categories_txt := Some (text_of (render_lines 0 res)),
        stdout := stdout w @ text_of (render_lines 0 res) @ saved_message @ ''\<newline>''\<rparr>)"
proof -
  from assms(3) have "emitted console True (render_lines 0 res) =
      (Inr (), text_of (render_lines 0 res), text_of (render_lines 0 res))"
    using emitted_all_encodable [of "render_lines 0 res" True console] by simp
  with main_opened [OF assms(1,2)] assms(4) show ?thesis by simp
qed

lemma main_before_open:
  assumes "\<And>cats res. categories_json w = Json (Some cats) \<Longrightarrow> main_loop cats [] \<noteq> Inr res"
  shows "\<exists>e. main console w = (Inl e, w)"
proof (cases "categories_json w")
  case NoFile
  then show ?thesis by (simp add: main_def)
next
  case NotJson
  then show ?thesis by (simp add: main_def)
next
  case (Json d)
  show ?thesis
  proof (cases d)
    case None
    with Json show ?thesis by (simp add: main_def)
  next
    case (Some cats)
    with Json assms [of cats] obtain e where "main_loop cats [] = Inl e"
      by (cases "main_loop cats []") auto
    with Json Some main_Inl [of w cats e console] show ?thesis by simp
  qed
qed

lemma main_after_open:
  assumes "categories_json w = Json (Some cats)" and "main_loop cats [] = Inr res"
  shows "\<exists>k \<le> length (render_lines 0 res).
           product_categories_txt (snd (main console w)) =
             Some (text_of (take k (render_lines 0 res))) \<and>
           (fst (main console w) = Inr () \<or> fst (main console w) = Inl UnicodeEncodeError) \<and>
           (fst (main console w) = Inr () \<longrightarrow> k = length (render_lines 0 res))"
proof -
  from emitted_prefix [of "render_lines 0 res" console True]
  obtain k where k: "k \<le> length (render_lines 0 res)"
    "fst (snd (emitted console True (render_lines 0 res))) = text_of (take k (render_lines 0 res))"
    "fst (emitted console True (render_lines 0 res)) = Inr () \<longrightarrow> k = length (render_lines 0 res)"
    by auto
  obtain r f c where e: "emitted console True (render_lines 0 res) = (r, f, c)"
    by (cases "emitted console True (render_lines 0 res)") auto
  have "r = Inr () \<or> r = Inl UnicodeEncodeError"
    using emitted_Inl [of console True "render_lines 0 res" _ f c] e by (cases r) auto
  with k e main_opened [OF assms, of console] show ?thesis
    by (intro exI [of _ k]) (auto split: sum.splits if_splits)
qed


text \<open>
  Claim C7, as stated, fails: nothing in the script writes the output file in one step.
  Line 69 truncates the file, and \<^verbatim>\<open>print_tree\<close> then writes it line by line, so an
  exception in the middle of the walk leaves the lines written before it. The second
  root of \<open>example_surrogate\<close> has a name UTF-8 cannot encode: line 64 raises at its
  line and the run leaves a file with the first line only. On a console that encodes in
  ASCII, line 65 raises at the second of the three lines of \<open>example_cyrillic\<close>, after
  line 64 has written it, and the run leaves a file with two lines.
\<close>

theorem partial_output_counterexample:
  "main_loop example_surrogate [] =
     Inr [FilteredNode ''A'' None, FilteredNode [CHR 0xED, CHR 0xA0, CHR 0x80] None] \<and>
   render_lines 0 [FilteredNode ''A'' None, FilteredNode [CHR 0xED, CHR 0xA0, CHR 0x80] None] =
     [''-A'', [CHR ''-'', CHR 0xED, CHR 0xA0, CHR 0x80]] \<and>
   main utf8_console (world_of example_surrogate) =
     (Inl UnicodeEncodeError,
      \<lparr>categories_json = Json (Some example_surrogate),
       product_categories_txt = Some (''-A'' @ ''\<newline>''),
       stdout = ''-A'' @ ''\<newline>''\<rparr>) \<and>
   render_lines 0
     [FilteredNode ''A'' None, FilteredNode name_home_baking None, FilteredNode ''B'' None] =
     [''-A'', ''-'' @ name_home_baking, ''-B''] \<and>
   main ascii_console (world_of example_cyrillic) =
     (Inl UnicodeEncodeError,
      \<lparr>categories_json = Json (Some example_cyrillic),
       product_categories_txt = Some (''-A'' @ ''\<newline>'' @ ''-'' @ name_home_baking @ ''\<newline>''),
       stdout = ''-A'' @ ''\<newline>''\<rparr>)"
proof -
  let ?res = "[FilteredNode ''A'' None, FilteredNode [CHR 0xED, CHR 0xA0, CHR 0x80] None]"
  have loop: "main_loop example_surrogate [] = Inr ?res"
    by (simp add: example_surrogate_def EXCLUDE_CATEGORY_IDS_def)
  have ls: "render_lines 0 ?res = [''-A'', [CHR ''-'', CHR 0xED, CHR 0xA0, CHR 0x80]]"
    by (simp add: render_lines_def)
  have em: "emitted utf8_console True [''-A'', [CHR ''-'', CHR 0xED, CHR 0xA0, CHR 0x80]] =
      (Inl UnicodeEncodeError, ''-A'' @ ''\<newline>'', ''-A'' @ ''\<newline>'')"
    by (simp add: utf8_console_def utf8_encodable_def)
  have "categories_json (world_of example_surrogate) = Json (Some example_surrogate)"
    by (simp add: world_of_def)
  from main_opened [OF this loop, of utf8_console] ls em
  have first: "main utf8_console (world_of example_surrogate) =
     (Inl UnicodeEncodeError,
      \<lparr>categories_json = Json (Some example_surrogate),
       product_categories_txt = Some (''-A'' @ ''\<newline>''),
       stdout = ''-A'' @ ''\<newline>''\<rparr>)"
    by (simp add: world_of_def)
  let ?res2 = "[FilteredNode ''A'' None, FilteredNode name_home_baking None,
      FilteredNode ''B'' None]"
  have loop2: "main_loop example_cyrillic [] = Inr ?res2"
    by (simp add: example_cyrillic_def EXCLUDE_CATEGORY_IDS_def)
  have ls2: "render_lines 0 ?res2 = [''-A'', ''-'' @ name_home_baking, ''-B'']"
    by (simp add: render_lines_def)
  have enc2: "utf8_encodable (''-'' @ name_home_baking @ ''\<newline>'')"
    "\<not> ascii_console (''-'' @ name_home_baking)"
    by (simp_all add: utf8_encodable_def ascii_console_def name_home_baking_def)
  have em2: "emitted ascii_console True [''-A'', ''-'' @ name_home_baking, ''-B''] =
      (Inl UnicodeEncodeError, ''-A'' @ ''\<newline>'' @ ''-'' @ name_home_baking @ ''\<newline>'',
       ''-A'' @ ''\<newline>'')"
    using enc2 by (simp add: utf8_encodable_def ascii_console_def)
  have "categories_json (world_of example_cyrillic) = Json (Some example_cyrillic)"
    by (simp add: world_of_def)
  from main_opened [OF this loop2, of ascii_console] ls2 em2
  have second: "main ascii_console (world_of example_cyrillic) =
     (Inl UnicodeEncodeError,
      \<lparr>categories_json = Json (Some example_cyrillic),
       product_categories_txt = Some (''-A'' @ ''\<newline>'' @ ''-'' @ name_home_baking @ ''\<newline>''),
       stdout = ''-A'' @ ''\<newline>''\<rparr>)"
    by (simp add: world_of_def)
  from loop ls first ls2 second show ?thesis by simp
qed

text \<open>
  Claim C7, amended. A failure during loading, parsing or filtering happens before the
  output file is created or modified: the run then leaves the world as it was. Once the
  filtered tree is built the run opens the output file and writes the rendering line by
  line: it leaves in the file the first \<open>k\<close> lines of the rendering, all of them when it
  succeeds, and fewer only when it fails with \<^verbatim>\<open>UnicodeEncodeError\<close>, which is the only
  failure after the file is opened. It succeeds, with the full rendering in the file,
  when every line can be encoded for the file and the console and the console can encode
  the closing message.
\<close>

theorem output_file_after_run:
  "((\<forall>cats res. categories_json w = Json (Some cats) \<longrightarrow> main_loop cats [] \<noteq> Inr res) \<longrightarrow>
      (\<exists>e. main console w = (Inl e, w))) \<and>
   (categories_json w = Json (Some cats) \<and> main_loop cats [] = Inr res \<longrightarrow>
      (\<exists>k \<le> length (render_lines 0 res).
         product_categories_txt (snd (main console w)) =
           Some (text_of (take k (render_lines 0 res))) \<and>
         (fst (main console w) = Inr () \<or> fst (main console w) = Inl UnicodeEncodeError) \<and>
         (fst (main console w) = Inr () \<longrightarrow> k = length (render_lines 0 res)))) \<and>
   (categories_json w = Json (Some cats) \<and> main_loop cats [] = Inr res \<and>
    (\<forall>l \<in> set (render_lines 0 res). utf8_encodable (l @ ''\<newline>'') \<and> console l) \<and>
    console saved_message \<longrightarrow>
      main console w =
        (Inr (),
         w\<lparr>product_categories_txt := Some (text_of (render_lines 0 res)),
           stdout := stdout w @ text_of (render_lines 0 res) @ saved_message @ ''\<newline>''\<rparr>))"
  using main_before_open [of w console] main_after_open [of w cats res console]
    main_Inr [of w cats res console]
  by blast

lemma main_loop_example_categories:
  "main_loop example_categories [] =
     Inr [FilteredNode ''Fruits'' (Some [FilteredNode ''Apples'' None])]"
  by (simp add: example_categories_def example_promo_def example_fruits_def)

theorem output_file_after_run_witness:
  "main utf8_console \<lparr>categories_json = NotJson, product_categories_txt = Some ''stale text'',
       stdout = []\<rparr> =
     (Inl JSONDecodeError,
      \<lparr>categories_json = NotJson, product_categories_txt = Some ''stale text'', stdout = []\<rparr>) \<and>
   main_loop example_categories [] =
     Inr [FilteredNode ''Fruits'' (Some [FilteredNode ''Apples'' None])] \<and>
   render_lines 0 [FilteredNode ''Fruits'' (Some [FilteredNode ''Apples'' None])] =
     [''-Fruits'', ''--Apples''] \<and>
   list_all (\<lambda>l. utf8_encodable (l @ ''\<newline>'') \<and> utf8_console l) [''-Fruits'', ''--Apples''] \<and>
   utf8_console saved_message \<and>
   main utf8_console (world_of example_categories) =
     (Inr (),
      \<lparr>categories_json = Json (Some example_categories),
       product_categories_txt = Some (''-Fruits'' @ ''\<newline>'' @ ''--Apples'' @ ''\<newline>''),
       stdout = ''-Fruits'' @ ''\<newline>'' @ ''--Apples'' @ ''\<newline>'' @ saved_message @ ''\<newline>''\<rparr>)"
proof -
  let ?bad = "\<lparr>categories_json = NotJson, product_categories_txt = Some ''stale text'',
       stdout = []\<rparr>"
  let ?res = "[FilteredNode ''Fruits'' (Some [FilteredNode ''Apples'' None])]"
  have "\<forall>cats res. categories_json ?bad = Json (Some cats) \<longrightarrow> main_loop cats [] \<noteq> Inr res"
    by simp
  with output_file_after_run [of ?bad utf8_console] obtain e where
    "main utf8_console ?bad = (Inl e, ?bad)" by blast
  moreover have "fst (main utf8_console ?bad) = Inl JSONDecodeError" by (simp add: main_def)
  ultimately have bad: "main utf8_console ?bad = (Inl JSONDecodeError, ?bad)" by simp
  have ls: "render_lines 0 ?res = [''-Fruits'', ''--Apples'']"
    by (simp add: render_lines_def)
  have ok: "list_all (\<lambda>l. utf8_encodable (l @ ''\<newline>'') \<and> utf8_console l)
      [''-Fruits'', ''--Apples'']"
    by simp
  then have hyp: "\<forall>l \<in> set (render_lines 0 ?res).
      utf8_encodable (l @ ''\<newline>'') \<and> utf8_console l"
    by (simp add: ls)
  have inp: "categories_json (world_of example_categories) = Json (Some example_categories)"
    by (simp add: world_of_def)
  from output_file_after_run
    [of "world_of example_categories" utf8_console example_categories ?res]
    inp main_loop_example_categories hyp
  have "main utf8_console (world_of example_categories) =
      (Inr (),
       (world_of example_categories)
         \<lparr>product_categories_txt := Some (text_of (render_lines 0 ?res)),
          stdout := stdout (world_of example_categories) @ text_of (render_lines 0 ?res) @
            saved_message @ ''\<newline>''\<rparr>)"
    by simp
  with bad main_loop_example_categories ls ok show ?thesis
    by (simp add: world_of_def)
qed

lemma main_input_unchanged: "categories_json (snd (main console w)) = categories_json w"
  by (auto simp: main_def print_tree_emitted print_def
        split: input_file.splits option.splits sum.splits prod.splits)

lemma main_same_input:
  assumes "categories_json w1 = categories_json w2"
  shows "fst (main console w1) = fst (main console w2)"
    and "fst (main console w1) = Inr u \<Longrightarrow>
         product_categories_txt (snd (main console w1)) =
         product_categories_txt (snd (main console w2))"
  using assms
  by (auto simp: main_def print_tree_emitted print_def
        split: input_file.splits option.splits sum.splits prod.splits if_splits)

lemma main_rerun_file:
  "product_categories_txt (snd (main console (snd (main console w)))) =
   product_categories_txt (snd (main console w))"
proof (cases "\<exists>cats res. categories_json w = Json (Some cats) \<and> main_loop cats [] = Inr res")
  case False
  then have "\<exists>e. main console w = (Inl e, w)" by (intro main_before_open) auto
  then show ?thesis by auto
next
  case True
  then obtain cats res where a: "categories_json w = Json (Some cats)"
    "main_loop cats [] = Inr res" by blast
  from a(1) have b: "categories_json (snd (main console w)) = Json (Some cats)"
    by (simp add: main_input_unchanged)
  have "product_categories_txt (snd (main console v)) =
      Some (fst (snd (emitted console True (render_lines 0 res))))"
    if "categories_json v = Json (Some cats)" for v
    using main_opened [OF that a(2), of console]
    by (auto split: prod.splits sum.splits if_splits)
  from this [OF a(1)] this [OF b] show ?thesis by simp
qed

text \<open>
  Claim C9. The outcome of a run and, when it succeeds, the text of the output file are
  determined by the input file alone: two runs on the same input agree on both, whatever
  the output file and the console held before, and running again right after a run
  leaves the same text in the output file. The two runs print to the same console.
\<close>

theorem runs_deterministic:
  "(categories_json w1 = categories_json w2 \<longrightarrow>
      fst (main console w1) = fst (main console w2) \<and>
      (fst (main console w1) = Inr () \<longrightarrow>
         product_categories_txt (snd (main console w1)) =
         product_categories_txt (snd (main console w2)))) \<and>
   fst (main console (snd (main console w))) = fst (main console w) \<and>
   product_categories_txt (snd (main console (snd (main console w)))) =
     product_categories_txt (snd (main console w))"
  using main_same_input(1) [of w1 w2 console] main_same_input(2) [of w1 w2 console "()"]
    main_same_input(1) [OF main_input_unchanged [of console w], of console]
    main_rerun_file [of console w]
  by blast

theorem runs_deterministic_witness:
  "categories_json (world_of example_categories) = categories_json example_world_old \<and>
   fst (main utf8_console (world_of example_categories)) = Inr () \<and>
   fst (main utf8_console example_world_old) = Inr () \<and>
   product_categories_txt (snd (main utf8_console (world_of example_categories))) =
     Some (''-Fruits'' @ ''\<newline>'' @ ''--Apples'' @ ''\<newline>'') \<and>
   product_categories_txt (snd (main utf8_console example_world_old)) =
     Some (''-Fruits'' @ ''\<newline>'' @ ''--Apples'' @ ''\<newline>'')"
proof -
  have a: "categories_json (world_of example_categories) = categories_json example_world_old"
    by (simp add: world_of_def example_world_old_def)
  have ls: "render_lines 0 [FilteredNode ''Fruits'' (Some [FilteredNode ''Apples'' None])] =
      [''-Fruits'', ''--Apples'']"
    by (simp add: render_lines_def)
  have b: "main utf8_console (world_of example_categories) =
      (Inr (), (world_of example_categories)
         \<lparr>product_categories_txt := Some (''-Fruits'' @ ''\<newline>'' @ ''--Apples'' @ ''\<newline>''),
          stdout := ''-Fruits'' @ ''\<newline>'' @ ''--Apples'' @ ''\<newline>'' @ saved_message @ ''\<newline>''\<rparr>)"
    using main_Inr [of "world_of example_categories" example_categories, OF _
        main_loop_example_categories, of utf8_console]
    by (simp add: world_of_def ls)
  from runs_deterministic [of "world_of example_categories" example_world_old utf8_console] a b
  show ?thesis by simp
qed

subsection \<open>The filtered tree\<close>

lemma list_all2_list_all:
  "list_all2 R xs ys \<Longrightarrow> (\<And>x y. x \<in> set xs \<Longrightarrow> R x y \<Longrightarrow> P y) \<Longrightarrow> list_all P ys"
  by (induction xs ys rule: list_all2_induct) auto

lemma extract_category_children_nonempty:
  "extract_category cat = Inr f \<Longrightarrow> children_nonempty f"
proof (induction cat arbitrary: f)
  case (CatalogNode i nm p ch)
  show ?case
  proof (cases ch)
    case None
    with CatalogNode.prems show ?thesis by (auto split: option.splits)
  next
    case (Some cs)
    have kid: "children_nonempty g" if "c \<in> set cs" "extract_category c = Inr g" for c g
      using CatalogNode.IH [of cs c g] that Some by simp
    have all: "list_all children_nonempty fs" if "extract_children cs [] = Inr fs" for fs
    proof -
      from extract_children_InrD [OF that]
      have "list_all2 (\<lambda>c f. extract_category c = Inr f) [c \<leftarrow> cs. \<not> name_excluded c] fs"
        by simp
      then show ?thesis
        by (rule list_all2_list_all) (auto intro: kid)
    qed
    from CatalogNode.prems Some all show ?thesis
      by (auto split: option.splits sum.splits if_splits)
  qed
qed

lemma extract_children_all_excluded:
  "list_all name_excluded cs \<Longrightarrow> extract_children cs [] = Inr []"
  by (induction cs) (auto simp: name_excluded_iff)

lemma extract_category_all_excluded:
  "list_all name_excluded cs \<Longrightarrow>
   extract_category (CatalogNode i nm p (Some cs)) = extract_category (CatalogNode i nm p None)"
  by (simp add: extract_children_all_excluded split: option.splits)

text \<open>
  Claim C5. Every node of a tree built by \<^verbatim>\<open>extract_category\<close>, and so every node of
  the list built by \<^verbatim>\<open>main\<close>, has no \<^verbatim>\<open>children\<close> key or a non-empty list of
  children. Hence an entry all of whose children are excluded by name gives the same
  filtered node as that entry without the key \<^verbatim>\<open>children\<close>, and is rendered the same.
\<close>

theorem filtered_children_nonempty:
  "(extract_category cat = Inr f \<longrightarrow> children_nonempty f) \<and>
   (main_loop cats [] = Inr res \<longrightarrow> list_all children_nonempty res) \<and>
   (list_all name_excluded cs \<longrightarrow>
      extract_category (CatalogNode i nm p (Some cs)) =
      extract_category (CatalogNode i nm p None))"
proof -
  have "list_all children_nonempty res" if "main_loop cats [] = Inr res"
  proof -
    from main_loop_InrD [OF that]
    have "list_all2 (\<lambda>c f. extract_category c = Inr f) (root_selector cats) res" by simp
    then show ?thesis
      by (rule list_all2_list_all) (rule extract_category_children_nonempty)
  qed
  then show ?thesis
    using extract_category_children_nonempty [of cat f]
      extract_category_all_excluded [of cs i nm p]
    by blast
qed

lemma petelinka_excluded [simp]: "name_petelinka_dinner \<in> EXCLUDE_NAMES"
  by (simp add: EXCLUDE_NAMES_def)

theorem filtered_children_nonempty_witness:
  "extract_category example_fruits =
     Inr (FilteredNode ''Fruits'' (Some [FilteredNode ''Apples'' None])) \<and>
   children_nonempty (FilteredNode ''Fruits'' (Some [FilteredNode ''Apples'' None])) \<and>
   main_loop [example_leaf] [] = Inr [FilteredNode ''Leaf'' None] \<and>
   list_all children_nonempty [FilteredNode ''Leaf'' None] \<and>
   list_all name_excluded (kids example_leaf) \<and>
   extract_category example_leaf =
     extract_category (CatalogNode (Some 2) (Some ''Leaf'') (Some 0) None)"
proof -
  let ?cs = "[CatalogNode None (Some name_petelinka_dinner) None None]"
  have ex: "list_all name_excluded ?cs" by (simp add: name_excluded_def)
  have leaf: "extract_category example_leaf = Inr (FilteredNode ''Leaf'' None)"
    by (simp add: example_leaf_def)
  have loop: "main_loop [example_leaf] [] = Inr [FilteredNode ''Leaf'' None]"
    by (simp add: leaf) (simp add: example_leaf_def EXCLUDE_CATEGORY_IDS_def)
  note inst = filtered_children_nonempty
    [of example_fruits "FilteredNode ''Fruits'' (Some [FilteredNode ''Apples'' None])"
        "[example_leaf]" "[FilteredNode ''Leaf'' None]" ?cs "Some 2" "Some ''Leaf''" "Some 0"]
  from inst extract_example_fruits loop ex show ?thesis
    by (simp add: example_leaf_def kids_def)
qed

subsection \<open>Round trip\<close>

lemma no_excluded_names_not_excluded: "no_excluded_names c \<Longrightarrow> \<not> name_excluded c"
  by (cases c rule: no_excluded_names.cases) (auto simp: name_excluded_def split: option.splits)

lemma list_all2_map_eq:
  "list_all2 R xs ys \<Longrightarrow> (\<And>x y. x \<in> set xs \<Longrightarrow> R x y \<Longrightarrow> g y = h x) \<Longrightarrow> map g ys = map h xs"
  by (induction xs ys rule: list_all2_induct) auto

lemma list_all2_exists:
  "(\<And>x. x \<in> set xs \<Longrightarrow> \<exists>y. R x y) \<Longrightarrow> \<exists>ys. list_all2 R xs ys"
proof (induction xs)
  case Nil
  show ?case by simp
next
  case (Cons x xs)
  then obtain y ys where "R x y" "list_all2 R xs ys" by (meson list.set_intros)
  then have "list_all2 R (x # xs) (y # ys)" by simp
  then show ?case ..
qed

lemma extract_category_shape:
  "no_excluded_names cat \<Longrightarrow> extract_category cat = Inr f \<Longrightarrow>
   filtered_shape f = catalog_shape cat"
proof (induction cat arbitrary: f)
  case (CatalogNode i nm p ch)
  show ?case
  proof (cases ch)
    case None
    with CatalogNode.prems show ?thesis by (auto split: option.splits)
  next
    case (Some cs)
    with CatalogNode.prems(1) have clean: "list_all no_excluded_names cs" by simp
    then have keep: "[c \<leftarrow> cs. \<not> name_excluded c] = cs"
      by (auto simp: list_all_iff no_excluded_names_not_excluded)
    have kid: "filtered_shape g = catalog_shape c"
      if "c \<in> set cs" "extract_category c = Inr g" for c g
      using CatalogNode.IH [of cs c g] that Some clean by (simp add: list_all_iff)
    have shapes: "map filtered_shape fs = map catalog_shape cs"
      if "extract_children cs [] = Inr fs" for fs
    proof -
      from extract_children_InrD [OF that] keep
      have "list_all2 (\<lambda>c f. extract_category c = Inr f) cs fs" by simp
      then show ?thesis by (rule list_all2_map_eq) (rule kid)
    qed
    from CatalogNode.prems(2) Some shapes show ?thesis
      by (auto split: option.splits sum.splits if_splits)
  qed
qed

lemma extract_category_total:
  "all_named cat \<Longrightarrow> \<exists>f. extract_category cat = Inr f"
proof (induction cat)
  case (CatalogNode i nm p ch)
  show ?case
  proof (cases ch)
    case None
    with CatalogNode.prems show ?thesis by (auto split: option.splits)
  next
    case (Some cs)
    with CatalogNode.prems have named: "list_all all_named cs" by simp
    have "\<exists>g. extract_category c = Inr g" if "c \<in> set [c \<leftarrow> cs. \<not> name_excluded c]" for c
      using CatalogNode.IH [of cs c] that Some named by (simp add: list_all_iff)
    from list_all2_exists [of _ "\<lambda>c f. extract_category c = Inr f", OF this]
    obtain fs where
      fs: "list_all2 (\<lambda>c f. extract_category c = Inr f) [c \<leftarrow> cs. \<not> name_excluded c] fs"
      by blast
    have "\<forall>c \<in> set cs. cat_name c \<noteq> None"
    proof
      fix c assume "c \<in> set cs"
      with named have "all_named c" by (simp add: list_all_iff)
      then show "cat_name c \<noteq> None" by (cases c rule: all_named.cases) auto
    qed
    from extract_children_InrI [OF this fs] CatalogNode.prems Some show ?thesis
      by (auto split: option.splits)
  qed
qed

lemma root_selector_no_excluded_ids:
  "\<forall>c \<in> set cats. is_root c \<longrightarrow> \<not> id_excluded c \<Longrightarrow>
   root_selector cats = [c \<leftarrow> cats. is_root c]"
  by (auto simp: root_selector_def intro: filter_cong)

text \<open>
  Claim C8. For a catalog none of whose roots has an excluded id and in whose root trees
  no name is excluded, the list built by \<^verbatim>\<open>main\<close> has the shape of the roots of the
  catalog with their descendants: the same names in the same nesting and order. Such a
  run does return a list when every top-level entry has an \<^verbatim>\<open>id\<close> and every node of
  the root trees has a \<^verbatim>\<open>name\<close>.
\<close>

theorem round_trip:
  assumes "\<forall>c \<in> set cats. is_root c \<longrightarrow> \<not> id_excluded c \<and> no_excluded_names c"
  shows "(main_loop cats [] = Inr res \<longrightarrow>
            map filtered_shape res = map catalog_shape [c \<leftarrow> cats. is_root c]) \<and>
         ((\<forall>c \<in> set cats. cat_id c \<noteq> None) \<and> (\<forall>c \<in> set cats. is_root c \<longrightarrow> all_named c) \<longrightarrow>
            (\<exists>out. main_loop cats [] = Inr out))"
proof -
  from assms have sel: "root_selector cats = [c \<leftarrow> cats. is_root c]"
    by (simp add: root_selector_no_excluded_ids)
  have mirror: "map filtered_shape res = map catalog_shape [c \<leftarrow> cats. is_root c]"
    if "main_loop cats [] = Inr res"
  proof -
    from main_loop_InrD [OF that] sel
    have "list_all2 (\<lambda>c f. extract_category c = Inr f) [c \<leftarrow> cats. is_root c] res" by simp
    then show ?thesis
      by (rule list_all2_map_eq) (use assms in \<open>auto intro: extract_category_shape\<close>)
  qed
  have total: "\<exists>out. main_loop cats [] = Inr out"
    if ids: "\<forall>c \<in> set cats. cat_id c \<noteq> None"
      and named: "\<forall>c \<in> set cats. is_root c \<longrightarrow> all_named c"
  proof -
    have "\<exists>f. extract_category c = Inr f" if "c \<in> set (root_selector cats)" for c
      using that named sel by (auto intro: extract_category_total)
    from list_all2_exists [of _ "\<lambda>c f. extract_category c = Inr f", OF this]
    obtain out where "list_all2 (\<lambda>c f. extract_category c = Inr f) (root_selector cats) out"
      by blast
    from main_loop_InrI [OF ids this] show ?thesis ..
  qed
  from mirror total show ?thesis by blast
qed

theorem round_trip_witness:
  "map is_root example_plain = [True, False] \<and>
   id_excluded example_plain_root = False \<and>
   no_excluded_names example_plain_root \<and>
   main_loop example_plain [] = Inr [FilteredNode ''Fruits'' (Some [FilteredNode ''Apples'' None])] \<and>
   map filtered_shape [FilteredNode ''Fruits'' (Some [FilteredNode ''Apples'' None])] =
     [NameTree (Some ''Fruits'') [NameTree (Some ''Apples'') []]] \<and>
   map catalog_shape [c \<leftarrow> example_plain. is_root c] =
     [NameTree (Some ''Fruits'') [NameTree (Some ''Apples'') []]]"
proof -
  have roots: "map is_root example_plain = [True, False]"
    by (simp add: example_plain_def example_plain_root_def is_root_def)
  have ids: "id_excluded example_plain_root = False"
    by (simp add: example_plain_root_def id_excluded_def)
  have names: "no_excluded_names example_plain_root"
    by (simp add: example_plain_root_def)
  have hyp: "\<forall>c \<in> set example_plain. is_root c \<longrightarrow> \<not> id_excluded c \<and> no_excluded_names c"
    using ids names by (simp add: example_plain_def is_root_def)
  have loop: "main_loop example_plain [] =
      Inr [FilteredNode ''Fruits'' (Some [FilteredNode ''Apples'' None])]"
    by (simp add: example_plain_def example_plain_root_def)
  have shape: "map catalog_shape [c \<leftarrow> example_plain. is_root c] =
      [NameTree (Some ''Fruits'') [NameTree (Some ''Apples'') []]]"
    by (simp add: example_plain_def example_plain_root_def is_root_def)
  from round_trip [OF hyp, of "[FilteredNode ''Fruits'' (Some [FilteredNode ''Apples'' None])]"]
    loop shape
  have "map filtered_shape [FilteredNode ''Fruits'' (Some [FilteredNode ''Apples'' None])] =
     [NameTree (Some ''Fruits'') [NameTree (Some ''Apples'') []]]"
    by simp
  with roots ids names loop shape show ?thesis by simp
qed

subsection \<open>Exclusion by name\<close>

lemma tree_names_eq: "tree_names f = node_name f # names_below f"
  by (cases f rule: tree_names.cases) simp_all

lemma extract_category_name:
  "extract_category cat = Inr f \<Longrightarrow> cat_name cat = Some (node_name f)"
  by (cases cat) (auto split: option.splits sum.splits if_splits)

lemma list_all2_in_setD2:
  "list_all2 R xs ys \<Longrightarrow> y \<in> set ys \<Longrightarrow> \<exists>x \<in> set xs. R x y"
  by (induction xs ys rule: list_all2_induct) auto

lemma list_all2_in_setD1:
  "list_all2 R xs ys \<Longrightarrow> x \<in> set xs \<Longrightarrow> \<exists>y \<in> set ys. R x y"
  by (induction xs ys rule: list_all2_induct) auto

lemma extract_category_names_below:
  "extract_category cat = Inr f \<Longrightarrow> set (names_below f) \<inter> EXCLUDE_NAMES = {}"
proof (induction cat arbitrary: f)
  case (CatalogNode i nm p ch)
  show ?case
  proof (cases ch)
    case None
    with CatalogNode.prems show ?thesis by (auto split: option.splits)
  next
    case (Some cs)
    have kid: "set (tree_names g) \<inter> EXCLUDE_NAMES = {}"
      if fs: "extract_children cs [] = Inr fs" and g: "g \<in> set fs" for fs g
    proof -
      from extract_children_InrD [OF fs]
      have "list_all2 (\<lambda>c f. extract_category c = Inr f) [c \<leftarrow> cs. \<not> name_excluded c] fs"
        by simp
      from list_all2_in_setD2 [OF this g]
      obtain c where c: "c \<in> set cs" "\<not> name_excluded c" "extract_category c = Inr g"
        by auto
      from c(2) extract_category_name [OF c(3)] have "node_name g \<notin> EXCLUDE_NAMES"
        by (simp add: name_excluded_iff)
      moreover from CatalogNode.IH [of cs c g] c Some
      have "set (names_below g) \<inter> EXCLUDE_NAMES = {}" by simp
      ultimately show ?thesis by (simp add: tree_names_eq)
    qed
    have "set (concat (map tree_names fs)) \<inter> EXCLUDE_NAMES = {}"
      if "extract_children cs [] = Inr fs" for fs
      using kid [OF that] by auto
    with CatalogNode.prems Some show ?thesis
      by (auto split: option.splits sum.splits if_splits)
  qed
qed

lemma cat_name_prune [simp]: "cat_name (prune c) = cat_name c"
  by (cases c rule: prune.cases) simp_all

lemma cat_id_prune [simp]: "cat_id (prune c) = cat_id c"
  by (cases c rule: prune.cases) simp_all

lemma cat_parent_id_prune [simp]: "cat_parent_id (prune c) = cat_parent_id c"
  by (cases c rule: prune.cases) simp_all

lemma extract_children_prune:
  "(\<And>c. c \<in> set cs \<Longrightarrow> extract_category (prune c) = extract_category c) \<Longrightarrow>
   extract_children (map prune [c \<leftarrow> cs. \<not> name_excluded c]) [] = extract_children cs []"
  by (induction cs) (auto simp: name_excluded_iff split: option.splits sum.splits)

lemma extract_category_prune: "extract_category (prune cat) = extract_category cat"
proof (induction cat)
  case (CatalogNode i nm p ch)
  show ?case
  proof (cases ch)
    case None
    then show ?thesis by simp
  next
    case (Some cs)
    have "extract_children (map prune [c \<leftarrow> cs. \<not> name_excluded c]) [] = extract_children cs []"
      by (rule extract_children_prune) (use CatalogNode.IH [of cs] Some in simp)
    moreover have "extract_children cs [] = Inr []" if "[c \<leftarrow> cs. \<not> name_excluded c] = []"
      using that by (intro extract_children_all_excluded) (simp add: list_all_iff filter_empty_conv)
    ultimately show ?thesis using Some
      by (auto split: option.splits sum.splits)
  qed
qed

lemma main_loop_prune: "main_loop (map prune cats) [] = main_loop cats []"
  by (induction cats)
     (simp_all add: extract_category_prune split: option.splits sum.splits)

lemma home_baking_excluded [simp]: "name_home_baking \<in> EXCLUDE_NAMES"
  by (simp add: EXCLUDE_NAMES_def)

text \<open>
  Claim C1, as stated, fails: \<^verbatim>\<open>main\<close> tests the top-level entries by id only (line 52),
  and line 36 tests the name of a child, never of the node \<^verbatim>\<open>extract_category\<close> was
  called on. A root whose name is in the name-exclusion set is printed.
\<close>

theorem excluded_name_at_root_counterexample:
  "name_home_baking \<in> EXCLUDE_NAMES \<and>
   main_loop [example_excluded_root] [] = Inr [FilteredNode name_home_baking None] \<and>
   main utf8_console (world_of [example_excluded_root]) =
     (Inr (),
      \<lparr>categories_json = Json (Some [example_excluded_root]),
       product_categories_txt = Some (''-'' @ name_home_baking @ ''\<newline>''),
       stdout = ''-'' @ name_home_baking @ ''\<newline>'' @ saved_message @ ''\<newline>''\<rparr>)"
proof -
  have loop: "main_loop [example_excluded_root] [] = Inr [FilteredNode name_home_baking None]"
    by (simp add: example_excluded_root_def)
  have "categories_json (world_of [example_excluded_root]) = Json (Some [example_excluded_root])"
    by (simp add: world_of_def)
  moreover have "\<forall>l \<in> set (render_lines 0 [FilteredNode name_home_baking None]).
      utf8_encodable (l @ ''\<newline>'') \<and> utf8_console l"
    by (simp add: render_lines_def utf8_console_def utf8_encodable_def name_home_baking_def)
  ultimately show ?thesis
    using main_Inr [OF _ loop, of "world_of [example_excluded_root]" utf8_console] loop
    by (simp add: world_of_def render_lines_def)
qed

text \<open>
  Claim C1, amended. Below the root level no name of the name-exclusion set appears in the
  output, at any depth; and a node below the root level whose name is in the set is
  omitted with its whole subtree: removing all such nodes from the catalog beforehand
  changes nothing in what \<^verbatim>\<open>extract_category\<close> and the loop of \<^verbatim>\<open>main\<close> return.
\<close>

theorem no_excluded_name_below_roots:
  "(main_loop cats [] = Inr res \<longrightarrow>
      (\<forall>f \<in> set res. set (names_below f) \<inter> EXCLUDE_NAMES = {})) \<and>
   (extract_category cat = Inr f \<longrightarrow> set (names_below f) \<inter> EXCLUDE_NAMES = {}) \<and>
   extract_category (prune cat) = extract_category cat \<and>
   main_loop (map prune cats) [] = main_loop cats []"
proof -
  have "set (names_below g) \<inter> EXCLUDE_NAMES = {}"
    if "main_loop cats [] = Inr res" "g \<in> set res" for g
  proof -
    from main_loop_InrD [OF that(1)]
    have "list_all2 (\<lambda>c f. extract_category c = Inr f) (root_selector cats) res" by simp
    from list_all2_in_setD2 [OF this that(2)]
    obtain c where "extract_category c = Inr g" by blast
    then show ?thesis by (rule extract_category_names_below)
  qed
  then show ?thesis
    using extract_category_names_below [of cat f] extract_category_prune [of cat]
      main_loop_prune [of cats]
    by blast
qed

theorem no_excluded_name_below_roots_witness:
  "main_loop [example_deep] [] =
     Inr [FilteredNode ''Fruits''
            (Some [FilteredNode ''Apples'' (Some [FilteredNode ''Green'' None])])] \<and>
   names_below (FilteredNode ''Fruits''
            (Some [FilteredNode ''Apples'' (Some [FilteredNode ''Green'' None])])) =
     [''Apples'', ''Green''] \<and>
   set [''Apples'', ''Green''] \<inter> EXCLUDE_NAMES = {} \<and>
   prune example_deep =
     CatalogNode (Some 1) (Some ''Fruits'') (Some 0)
       (Some [CatalogNode None (Some ''Apples'') None
                (Some [CatalogNode None (Some ''Green'') None None])]) \<and>
   extract_category (prune example_deep) = extract_category example_deep"
proof -
  have green: "''Green'' \<notin> EXCLUDE_NAMES"
    by (simp add: EXCLUDE_NAMES_def name_all_goods_of_category_def
        name_all_goods_of_section_def name_petelinka_dinner_def name_mandarin_tale_def
        name_ideal_for_baking_def name_pour_boiling_water_def name_home_baking_def)
  have ext: "extract_category example_deep =
      Inr (FilteredNode ''Fruits''
            (Some [FilteredNode ''Apples'' (Some [FilteredNode ''Green'' None])]))"
    by (simp add: example_deep_def green)
  have loop: "main_loop [example_deep] [] =
     Inr [FilteredNode ''Fruits''
            (Some [FilteredNode ''Apples'' (Some [FilteredNode ''Green'' None])])]"
    by (simp add: example_deep_def green)
  have pr: "prune example_deep =
     CatalogNode (Some 1) (Some ''Fruits'') (Some 0)
       (Some [CatalogNode None (Some ''Apples'') None
                (Some [CatalogNode None (Some ''Green'') None None])])"
    by (simp add: example_deep_def name_excluded_def green)
  from no_excluded_name_below_roots [of "[example_deep]" _ example_deep] loop pr
  show ?thesis by (simp add: green)
qed

subsection \<open>Exclusion by id\<close>

lemma main_loop_drop_id_excluded:
  "main_loop [c \<leftarrow> cats. \<not> id_excluded c] [] = main_loop cats []"
  by (induction cats) (auto simp: id_excluded_iff split: option.splits sum.splits)

lemma kids_CatalogNode [simp]:
  "kids (CatalogNode i nm p None) = []" "kids (CatalogNode i nm p (Some cs)) = cs"
  by (simp_all add: kids_def)

lemma extract_category_child_kept:
  assumes "extract_category parent = Inr f" and "child \<in> set (kids parent)"
    and "\<not> name_excluded child"
  shows "\<exists>g gs. extract_category child = Inr g \<and> node_children f = Some gs \<and> g \<in> set gs"
proof (cases parent)
  case (CatalogNode i nm p ch)
  with assms(2) obtain cs where ch: "ch = Some cs" and cs: "child \<in> set cs"
    by (cases ch) auto
  from cs have ne: "cs \<noteq> []" by auto
  from assms(1) CatalogNode ch ne obtain n fs where
    fs: "extract_children cs [] = Inr fs" and
    f: "f = (if fs = [] then FilteredNode n None else FilteredNode n (Some fs))"
    by (auto split: option.splits sum.splits if_splits)
  from extract_children_InrD [OF fs]
  have "list_all2 (\<lambda>c f. extract_category c = Inr f) [c \<leftarrow> cs. \<not> name_excluded c] fs"
    by simp
  from list_all2_in_setD1 [OF this, of child] cs assms(3)
  obtain g where g: "g \<in> set fs" "extract_category child = Inr g" by auto
  then have "fs \<noteq> []" by auto
  with f g show ?thesis by auto
qed

text \<open>
  Claim C2. The id-exclusion set is consulted for the top-level entries only. A top-level
  entry with an excluded id contributes nothing to the output: dropping these entries
  beforehand changes nothing, and the result lists the extractions of the roots whose id
  is not excluded. Below the root level a node whose id is in the set is kept, as a child
  of its parent's filtered node, unless its name is excluded.
\<close>

theorem id_exclusion_roots_only:
  "main_loop [c \<leftarrow> cats. \<not> id_excluded c] [] = main_loop cats [] \<and>
   (main_loop cats [] = Inr res \<longrightarrow>
      list_all2 (\<lambda>c f. extract_category c = Inr f) [c \<leftarrow> cats. is_root c \<and> \<not> id_excluded c] res) \<and>
   (extract_category parent = Inr f \<and> child \<in> set (kids parent) \<and>
    id_excluded child \<and> \<not> name_excluded child \<longrightarrow>
      (\<exists>g gs. extract_category child = Inr g \<and> node_children f = Some gs \<and> g \<in> set gs))"
  using main_loop_drop_id_excluded [of cats] main_loop_InrD [of cats res]
    extract_category_child_kept [of parent f child]
  by (simp add: root_selector_def)

theorem id_exclusion_roots_only_witness:
  "extract_category example_nested_id =
     Inr (FilteredNode ''Fruits'' (Some [FilteredNode ''Apples'' None])) \<and>
   kids example_nested_id = [CatalogNode (Some 7107) (Some ''Apples'') (Some 1) None] \<and>
   id_excluded (CatalogNode (Some 7107) (Some ''Apples'') (Some 1) None) \<and>
   name_excluded (CatalogNode (Some 7107) (Some ''Apples'') (Some 1) None) = False \<and>
   extract_category (CatalogNode (Some 7107) (Some ''Apples'') (Some 1) None) =
     Inr (FilteredNode ''Apples'' None) \<and>
   main_loop [c \<leftarrow> example_categories. \<not> id_excluded c] [] = main_loop example_categories [] \<and>
   main_loop example_categories [] =
     Inr [FilteredNode ''Fruits'' (Some [FilteredNode ''Apples'' None])]"
proof -
  let ?child = "CatalogNode (Some 7107) (Some ''Apples'') (Some 1) None"
  let ?f = "FilteredNode ''Fruits'' (Some [FilteredNode ''Apples'' None])"
  have a: "extract_category example_nested_id = Inr ?f"
    by (simp add: example_nested_id_def)
  have b: "kids example_nested_id = [?child]"
    by (simp add: example_nested_id_def)
  have c: "id_excluded ?child" "name_excluded ?child = False"
    by (simp_all add: id_excluded_def name_excluded_def EXCLUDE_CATEGORY_IDS_def)
  have loop: "main_loop example_categories [] = Inr [?f]"
    by (simp add: example_categories_def example_promo_def example_fruits_def)
  from id_exclusion_roots_only [of example_categories "[?f]" example_nested_id ?f ?child]
    a b c loop
  show ?thesis by simp
qed

subsection \<open>Entries without a name\<close>

lemma extract_children_Inl:
  "extract_children cs [] = Inl e \<Longrightarrow>
   (\<exists>c \<in> set cs. cat_name c = None \<and> e = KeyError ''name'') \<or>
   (\<exists>c \<in> set cs. extract_category c = Inl e)"
  by (induction cs) (auto split: option.splits sum.splits if_splits)

lemma extract_category_Inl: "extract_category cat = Inl e \<Longrightarrow> e = KeyError ''name''"
proof (induction cat)
  case (CatalogNode i nm p ch)
  show ?case
  proof (cases ch)
    case None
    with CatalogNode.prems show ?thesis by (auto split: option.splits)
  next
    case (Some cs)
    have "e = KeyError ''name''" if "extract_children cs [] = Inl e"
      using extract_children_Inl [OF that] CatalogNode.IH [of cs] Some by auto
    with CatalogNode.prems Some show ?thesis
      by (auto split: option.splits sum.splits if_splits)
  qed
qed

lemma main_loop_Inl:
  "main_loop cats [] = Inl e \<Longrightarrow> e = KeyError ''id'' \<or> e = KeyError ''name''"
  by (induction cats)
     (auto split: option.splits sum.splits if_splits dest: extract_category_Inl)

lemma extract_category_nameless: "cat_name cat = None \<Longrightarrow> \<exists>e. extract_category cat = Inl e"
  by (cases cat) simp

lemma extract_category_child_fails:
  assumes "child \<in> set (kids parent)"
    and "cat_name child = None \<or> (\<not> name_excluded child \<and> (\<exists>e. extract_category child = Inl e))"
  shows "\<exists>e. extract_category parent = Inl e"
proof (rule ccontr)
  assume "\<nexists>e. extract_category parent = Inl e"
  then obtain f where f: "extract_category parent = Inr f" by (cases "extract_category parent") auto
  obtain i nm p ch where parent: "parent = CatalogNode i nm p ch" by (cases parent)
  with assms(1) obtain cs where ch: "ch = Some cs" and cs: "child \<in> set cs"
    by (cases ch) auto
  from cs have "cs \<noteq> []" by auto
  with f parent ch obtain fs where "extract_children cs [] = Inr fs"
    by (auto split: option.splits sum.splits if_splits)
  from extract_children_InrD [OF this]
  have names: "\<forall>c \<in> set cs. cat_name c \<noteq> None"
    and rel: "list_all2 (\<lambda>c f. extract_category c = Inr f) [c \<leftarrow> cs. \<not> name_excluded c] fs"
    by simp_all
  from names cs assms(2) have keep: "\<not> name_excluded child" and
    fails: "\<exists>e. extract_category child = Inl e" by auto
  from list_all2_in_setD1 [OF rel, of child] cs keep
  obtain g where "extract_category child = Inr g" by auto
  with fails show False by simp
qed

lemma visited_failure_propagates:
  "v \<in> set (visited r) \<Longrightarrow> \<exists>e. extract_category v = Inl e \<Longrightarrow> \<exists>e. extract_category r = Inl e"
proof (induction r)
  case (CatalogNode i nm p ch)
  show ?case
  proof (cases "v = CatalogNode i nm p ch")
    case True
    with CatalogNode.prems(2) show ?thesis by simp
  next
    case False
    with CatalogNode.prems(1) obtain cs c where ch: "ch = Some cs"
      and c: "c \<in> set cs" "\<not> name_excluded c" "v \<in> set (visited c)"
      by (cases ch) auto
    from CatalogNode.IH [of cs c] ch c CatalogNode.prems(2)
    have "\<exists>e. extract_category c = Inl e" by simp
    with c(1,2) ch show ?thesis
      by (intro extract_category_child_fails [of c]) auto
  qed
qed

lemma main_loop_root_fails:
  assumes "r \<in> set (root_selector cats)" and "extract_category r = Inl e"
  shows "\<exists>e'. main_loop cats [] = Inl e'"
proof (rule ccontr)
  assume "\<nexists>e'. main_loop cats [] = Inl e'"
  then obtain res where "main_loop cats [] = Inr res" by (cases "main_loop cats []") auto
  from main_loop_InrD [OF this]
  have "list_all2 (\<lambda>c f. extract_category c = Inr f) (root_selector cats) res" by simp
  from list_all2_in_setD1 [OF this assms(1)] assms(2) show False by auto
qed

text \<open>
  Claim C6, as stated, fails: the script checks nothing ahead of time, and a missing name
  raises only where the name is read. The run on \<open>example_unread\<close>, which has three
  entries without a name, succeeds.
\<close>

theorem missing_name_unread_counterexample:
  "map cat_name example_unread = [None, None, Some ''Fruits''] \<and>
   main utf8_console (world_of example_unread) =
     (Inr (),
      \<lparr>categories_json = Json (Some example_unread),
       product_categories_txt = Some (''-Fruits'' @ ''\<newline>''),
       stdout = ''-Fruits'' @ ''\<newline>'' @ saved_message @ ''\<newline>''\<rparr>)"
proof -
  have loop: "main_loop example_unread [] = Inr [FilteredNode ''Fruits'' None]"
    by (simp add: example_unread_def EXCLUDE_CATEGORY_IDS_def)
  have "categories_json (world_of example_unread) = Json (Some example_unread)"
    by (simp add: world_of_def)
  moreover have "\<forall>l \<in> set (render_lines 0 [FilteredNode ''Fruits'' None]).
      utf8_encodable (l @ ''\<newline>'') \<and> utf8_console l"
    by (simp add: render_lines_def)
  ultimately show ?thesis
    using main_Inr [OF _ loop, of "world_of example_unread" utf8_console]
    by (simp add: world_of_def render_lines_def) (simp add: example_unread_def)
qed

text \<open>
  Claim C6, amended. When a selected root (\<^verbatim>\<open>parent_id\<close> 0, id not excluded) leads
  \<^verbatim>\<open>extract_category\<close> to a node that has no name or has a child without a name, the
  run fails with a \<^verbatim>\<open>KeyError\<close> and leaves the world as it was: \<^verbatim>\<open>extract_category\<close>
  on that root raises \<^verbatim>\<open>KeyError('name')\<close>, and the run ends with it unless an earlier
  top-level entry already ended it with \<^verbatim>\<open>KeyError('id')\<close>. A name is never made up: a
  filtered node bears the name of the entry it was built from.
\<close>

theorem missing_name_fails_when_read:
  assumes "categories_json w = Json (Some cats)"
    and "r \<in> set cats" and "is_root r" and "\<not> id_excluded r" and "v \<in> set (visited r)"
    and "cat_name v = None \<or> (\<exists>ch \<in> set (kids v). cat_name ch = None)"
  shows "(main console w = (Inl (KeyError ''name''), w) \<or> main console w = (Inl (KeyError ''id''), w)) \<and>
         extract_category r = Inl (KeyError ''name'') \<and>
         (extract_category cat = Inr f \<longrightarrow> cat_name cat = Some (node_name f))"
proof -
  from assms(6) have "\<exists>e. extract_category v = Inl e"
    by (auto intro: extract_category_nameless extract_category_child_fails)
  from visited_failure_propagates [OF assms(5) this]
  obtain e where e: "extract_category r = Inl e" ..
  then have r: "extract_category r = Inl (KeyError ''name'')"
    by (simp add: extract_category_Inl)
  from assms(2-4) have "r \<in> set (root_selector cats)" by (simp add: root_selector_def)
  from main_loop_root_fails [OF this e] obtain e' where e': "main_loop cats [] = Inl e'" ..
  from main_Inl [OF assms(1) e', of console] main_loop_Inl [OF e'] r
    extract_category_name [of cat f]
  show ?thesis by auto
qed

theorem missing_name_fails_when_read_witness:
  "is_root example_nameless_child \<and> id_excluded example_nameless_child = False \<and>
   visited example_nameless_child =
     [example_nameless_child,
      CatalogNode None (Some ''Apples'') None (Some [CatalogNode None None None None])] \<and>
   map cat_name (kids (CatalogNode None (Some ''Apples'') None
                (Some [CatalogNode None None None None]))) = [None] \<and>
   main utf8_console (world_of [example_nameless_child]) =
     (Inl (KeyError ''name''), world_of [example_nameless_child])"
proof -
  let ?v = "CatalogNode None (Some ''Apples'') None (Some [CatalogNode None None None None])"
  let ?w = "world_of [example_nameless_child]"
  have a: "categories_json ?w = Json (Some [example_nameless_child])"
    by (simp add: world_of_def)
  have b: "example_nameless_child \<in> set [example_nameless_child]" by simp
  have c: "is_root example_nameless_child" "\<not> id_excluded example_nameless_child"
    by (simp_all add: example_nameless_child_def is_root_def id_excluded_def)
  have vs: "visited example_nameless_child = [example_nameless_child, ?v]"
    by (simp add: example_nameless_child_def name_excluded_def)
  then have d: "?v \<in> set (visited example_nameless_child)" by simp
  have k: "map cat_name (kids ?v) = [None]" by simp
  then have e: "cat_name ?v = None \<or> (\<exists>ch \<in> set (kids ?v). cat_name ch = None)" by simp
  have ids: "main utf8_console ?w \<noteq> (Inl (KeyError ''id''), ?w)"
    by (simp add: main_def world_of_def example_nameless_child_def)
  from missing_name_fails_when_read [OF a b c d e, of utf8_console] ids c vs k
  show ?thesis by simp
qed

end
